theory Spec2Isabelle
  imports Complex_Main "HOL-Library.Word" "HOL-Library.List_Lexorder" "HOL-Library.Char_ord"
    "HOL-Library.Product_Lexorder" "HOL-Library.Sublist"
begin

unbundle bit_operations_syntax

section \<open>Leave protocol: sanitizing the replacement list (rpc/leave.ts)\<close>

text \<open>
  A peer id is a string. Parsing a peer id (\<^verbatim>\<open>peerIdFromString\<close>) belongs to the host
  runtime; it is a parameter \<open>parses\<close> that is true where the parser does not throw.
\<close>

type_synonym peerId = string

record LeaveNoticeV1 =
  ln_from :: peerId
  ln_replacements :: "peerId list option"
  ln_timestamp :: int

definition MAX_REPLACEMENTS :: nat where
  "MAX_REPLACEMENTS = 12"

text \<open>
  \<^verbatim>\<open>sanitizeReplacements\<close>: an absent or empty list stays absent; otherwise the first
  \<open>MAX_REPLACEMENTS\<close> entries are cut off (\<^verbatim>\<open>ids.slice(0, MAX_REPLACEMENTS)\<close>) and the
  ones that parse are kept; an empty result is reported as absent.
\<close>

definition sanitizeReplacements :: "(peerId \<Rightarrow> bool) \<Rightarrow> peerId list option \<Rightarrow> peerId list option" where
  "sanitizeReplacements parses ids =
     (case ids of
        None \<Rightarrow> None
      | Some xs \<Rightarrow>
          if xs = [] then None
          else (let valid = filter parses (take MAX_REPLACEMENTS xs)
                in if valid \<noteq> [] then Some valid else None))"

text \<open>The notice that \<^verbatim>\<open>registerLeave\<close> hands to the \<^verbatim>\<open>onLeave\<close> callback.\<close>

definition registerLeave_notice :: "(peerId \<Rightarrow> bool) \<Rightarrow> LeaveNoticeV1 \<Rightarrow> LeaveNoticeV1" where
  "registerLeave_notice parses msg =
     msg\<lparr>ln_replacements := sanitizeReplacements parses (ln_replacements msg)\<rparr>"

text \<open>An absent list read as the empty list.\<close>

definition listOf :: "'a list option \<Rightarrow> 'a list" where
  "listOf xs = (case xs of None \<Rightarrow> [] | Some ys \<Rightarrow> ys)"

text \<open>
  The specification's wording, in its order: drop the unparseable ids, then truncate to 12.
\<close>

definition replacements_dropThenTruncate :: "(peerId \<Rightarrow> bool) \<Rightarrow> peerId list \<Rightarrow> peerId list" where
  "replacements_dropThenTruncate parses xs = take 12 (filter parses xs)"

definition onlyOk :: "peerId \<Rightarrow> bool" where
  "onlyOk s = (s = ''ok'')"

definition wire13 :: "peerId list" where
  "wire13 = replicate 12 ''??'' @ [''ok'']"

section \<open>Payload heuristic: the near radius (service/payload-heuristic.ts)\<close>

type_synonym byte = "8 word"
type_synonym coord = "byte list"

definition RING_SIZE :: int where
  "RING_SIZE = 2 ^ 256"

text \<open>
  \<^verbatim>\<open>Math.round\<close> rounds half up. A finite double is a rational number, and the result
  is exact, so the size estimate is a \<open>real\<close> here.
\<close>

definition jsRound :: "real \<Rightarrow> int" where
  "jsRound x = \<lfloor>x + 1 / 2\<rfloor>"

text \<open>
  The loop \<^verbatim>\<open>for (let i = 31; i >= 0; i--) { out[i] = Number(val & 0xffn); val >>= 8n }\<close>;
  the first argument is \<open>i + 1\<close>. BigInt \<^verbatim>\<open>&\<close> and \<^verbatim>\<open>>>\<close> are two's complement
  operations, as \<open>AND\<close> and \<open>drop_bit\<close> on \<open>int\<close> are.
\<close>

fun fillBytes :: "nat \<Rightarrow> int \<Rightarrow> byte list \<Rightarrow> byte list" where
  "fillBytes 0 val out = out"
| "fillBytes (Suc i) val out = fillBytes i (drop_bit 8 val) (out[i := word_of_int (val AND 255)])"

definition computeNearRadius :: "real \<Rightarrow> int \<Rightarrow> int \<Rightarrow> coord" where
  "computeNearRadius sizeEstimate k beta =
     (let out = replicate 32 0 in
      if sizeEstimate < 1 then out
      else
        (let span = k * (RING_SIZE div max 1 (jsRound sizeEstimate));
             val = span * beta;
             val' = (if val \<ge> RING_SIZE then RING_SIZE - 1 else val)
         in fillBytes 32 val' out))"

text \<open>
  The 32-byte big-endian encoding of an integer, stated independently of the loop:
  byte \<open>i\<close> is the integer shifted right by \<open>8 * (31 - i)\<close> bits, reduced modulo 256.
\<close>

definition bigEndian32 :: "int \<Rightarrow> coord" where
  "bigEndian32 v = map (\<lambda>i. word_of_int (v div 256 ^ (31 - i))) [0..<32]"

text \<open>The unsigned integer that a byte string denotes, most significant byte first.\<close>

definition beValue :: "coord \<Rightarrow> int" where
  "beValue bs = foldl (\<lambda>a b. 256 * a + uint b) 0 bs"

text \<open>The encoding with any number of bytes, for the proof that it denotes the integer.\<close>

definition beEnc :: "nat \<Rightarrow> int \<Rightarrow> coord" where
  "beEnc n v = map (\<lambda>i. word_of_int (v div 256 ^ (n - 1 - i))) [0..<n]"

section \<open>Ring arithmetic and the Digitree store\<close>

text \<open>
  Modelled from the spec: the module \<^verbatim>\<open>ring/distance.ts\<close> is not among the sources.
  Section 4.1: \<^verbatim>\<open>xorDistance\<close> is the byte-wise XOR of two coordinates and
  \<^verbatim>\<open>lexLess\<close> is the lexicographic comparison of byte strings.
\<close>

definition xorDistance :: "coord \<Rightarrow> coord \<Rightarrow> coord" where
  "xorDistance a b = map2 (XOR) a b"

definition lexLess :: "coord \<Rightarrow> coord \<Rightarrow> bool" where
  "lexLess a b = (a < b)"

text \<open>
  Modelled from the spec: the class \<^verbatim>\<open>DigitreeStore\<close> (\<^verbatim>\<open>store/digitree-store.ts\<close>) is
  not among the sources. Section 3 gives the fields of a peer entry (the opaque metadata map
  is left out) and invariant I2: ids are unique across the store. The store is the list of
  its entries in insertion order.
\<close>

datatype PeerState = connected | disconnected

record PeerEntry =
  pe_id :: peerId
  pe_coord :: coord
  pe_state :: PeerState
  pe_relevance :: real
  pe_lastAccess :: int
  pe_accessCount :: nat
  pe_successCount :: nat
  pe_failureCount :: nat
  pe_avgLatencyMs :: real

type_synonym DigitreeStore = "PeerEntry list"

definition getById :: "DigitreeStore \<Rightarrow> peerId \<Rightarrow> PeerEntry option" where
  "getById st i = find (\<lambda>e. pe_id e = i) st"

section \<open>Next-hop selector (selector/next-hop.ts)\<close>

record NextHopOptions =
  nearRadius :: "coord option"
  confidence :: "real option"
  backoffPenalty :: "(peerId \<Rightarrow> real) option"
  connectedToleranceBytes :: "int option"

text \<open>The last argument of \<^verbatim>\<open>chooseNextHop\<close>: absent, a number, or an options object.\<close>

datatype OptionsOrTolerance = NoOptions | Tolerance int | Options NextHopOptions

text \<open>\<^verbatim>\<open>leadingByteIndex\<close>: \<open>None\<close> stands for \<^verbatim>\<open>Number.POSITIVE_INFINITY\<close>.\<close>

fun leadingByteIndexFrom :: "nat \<Rightarrow> coord \<Rightarrow> nat option" where
  "leadingByteIndexFrom i [] = None"
| "leadingByteIndexFrom i (b # bs) = (if b \<noteq> 0 then Some i else leadingByteIndexFrom (Suc i) bs)"

definition leadingByteIndex :: "coord \<Rightarrow> nat option" where
  "leadingByteIndex u8 = leadingByteIndexFrom 0 u8"

definition equalBytes :: "coord \<Rightarrow> coord \<Rightarrow> bool" where
  "equalBytes a b = (if length a \<noteq> length b then False else list_all2 (=) a b)"

text \<open>
  \<^verbatim>\<open>betterByDist\<close>. The comparison \<^verbatim>\<open>idA < idB\<close> of two strings is the lexicographic
  order on their characters.
\<close>

definition betterByDist :: "peerId \<Rightarrow> coord \<Rightarrow> peerId \<Rightarrow> coord \<Rightarrow> bool" where
  "betterByDist idA distA idB distB =
     (if lexLess distA distB then True
      else if lexLess distB distA then False
      else idA < idB)"

definition isNear :: "coord \<Rightarrow> coord \<Rightarrow> bool" where
  "isNear d radius = (\<not> lexLess radius d)"

record CostWeights =
  wD :: real
  wConn :: real
  wQ :: real
  wB :: real

definition weightsForContext :: "bool \<Rightarrow> real \<Rightarrow> CostWeights" where
  "weightsForContext near conf =
     (let wD0 = (if near then 0.7 else 0.4);
          wConn0 = (if near then 0.1 else 0.4);
          cAdj = (conf - 0.5) * 0.2
      in \<lparr>wD = max 0.1 (wD0 + cAdj), wConn = max 0.05 (wConn0 - cAdj), wQ = 0.1, wB = 0.1\<rparr>)"

text \<open>The number of significant bits of a byte; \<^verbatim>\<open>Math.clz32(v) - 24\<close> is 8 minus it.\<close>

fun bitLength :: "nat \<Rightarrow> nat" where
  "bitLength n = (if n = 0 then 0 else Suc (bitLength (n div 2)))"

fun leadingZeroBits :: "coord \<Rightarrow> nat" where
  "leadingZeroBits [] = 0"
| "leadingZeroBits (v # vs) = (if v = 0 then 8 + leadingZeroBits vs else 8 - bitLength (unat v))"

definition normalizeDistance :: "coord \<Rightarrow> real" where
  "normalizeDistance d =
     (let lzBits = leadingZeroBits d; totalBits = length d * 8
      in if lzBits \<ge> totalBits then 0
         else max 0 (min 1 (1 - real lzBits / real totalBits)))"

definition cost :: "real \<Rightarrow> bool \<Rightarrow> real \<Rightarrow> real \<Rightarrow> CostWeights \<Rightarrow> real" where
  "cost normDist conn lq backoff w =
     wD w * normDist - wConn w * (if conn then 1 else 0) - wQ w * lq + wB w * backoff"

text \<open>
  \<^verbatim>\<open>Array.prototype.sort\<close> with a comparator is a stable sort: an element is placed
  before the first element of the sorted rest that it does not compare greater than.
\<close>

fun insertBy :: "('a \<Rightarrow> 'a \<Rightarrow> real) \<Rightarrow> 'a \<Rightarrow> 'a list \<Rightarrow> 'a list" where
  "insertBy cmp x [] = [x]"
| "insertBy cmp x (y # ys) = (if cmp x y \<le> 0 then x # y # ys else y # insertBy cmp x ys)"

definition jsSort :: "('a \<Rightarrow> 'a \<Rightarrow> real) \<Rightarrow> 'a list \<Rightarrow> 'a list" where
  "jsSort cmp xs = foldr (insertBy cmp) xs []"

record Scored =
  sc_id :: peerId
  sc_dist :: coord
  sc_near :: bool
  sc_connected :: bool
  sc_costVal :: real

definition nearCompare :: "Scored \<Rightarrow> Scored \<Rightarrow> real" where
  "nearCompare a b =
     (if betterByDist (sc_id a) (sc_dist a) (sc_id b) (sc_dist b) then -1
      else if betterByDist (sc_id b) (sc_dist b) (sc_id a) (sc_dist a) then 1
      else if sc_connected a \<noteq> sc_connected b then (if sc_connected a then -1 else 1)
      else sc_costVal a - sc_costVal b)"

definition farCompare :: "Scored \<Rightarrow> Scored \<Rightarrow> real" where
  "farCompare a b =
     (if sc_costVal a \<noteq> sc_costVal b then sc_costVal a - sc_costVal b
      else if betterByDist (sc_id a) (sc_dist a) (sc_id b) (sc_dist b) then -1 else 1)"

definition scoreCandidate ::
  "DigitreeStore \<Rightarrow> coord \<Rightarrow> (peerId \<Rightarrow> bool) \<Rightarrow> (peerId \<Rightarrow> real) \<Rightarrow> real \<Rightarrow> (peerId \<Rightarrow> real)
   \<Rightarrow> coord \<Rightarrow> peerId \<Rightarrow> Scored option" where
  "scoreCandidate store targetCoord isConn linkQ conf backoff radius i =
     (case getById store i of
        None \<Rightarrow> None
      | Some entry \<Rightarrow>
          (let d = xorDistance (pe_coord entry) targetCoord;
               near = isNear d radius;
               conn = isConn i;
               w = weightsForContext near conf;
               costVal = cost (normalizeDistance d) conn (linkQ i) (backoff i) w
           in Some \<lparr>sc_id = i, sc_dist = d, sc_near = near, sc_connected = conn,
                     sc_costVal = costVal\<rparr>))"

definition chooseNextHopCost ::
  "DigitreeStore \<Rightarrow> coord \<Rightarrow> peerId list \<Rightarrow> (peerId \<Rightarrow> bool) \<Rightarrow> (peerId \<Rightarrow> real)
   \<Rightarrow> NextHopOptions \<Rightarrow> peerId option" where
  "chooseNextHopCost store targetCoord candidates isConn linkQ opts =
     (let conf = (case confidence opts of None \<Rightarrow> 0.5 | Some c \<Rightarrow> c);
          backoff = (case backoffPenalty opts of None \<Rightarrow> (\<lambda>_. 0) | Some f \<Rightarrow> f);
          radius = (case nearRadius opts of None \<Rightarrow> [] | Some r \<Rightarrow> r);
          scored = List.map_filter
                     (scoreCandidate store targetCoord isConn linkQ conf backoff radius) candidates
      in if scored = [] then None
         else
           (let nearCandidates = filter sc_near scored;
                farCandidates = filter (\<lambda>s. \<not> sc_near s) scored
            in if nearCandidates \<noteq> [] then
                 (case jsSort nearCompare nearCandidates of
                    [] \<Rightarrow> None | s # _ \<Rightarrow> Some (sc_id s))
               else
                 (case jsSort farCompare farCandidates of
                    [] \<Rightarrow> None | s # _ \<Rightarrow> Some (sc_id s))))"

record ScoredLegacy =
  sl_id :: peerId
  sl_dist :: coord
  sl_connected :: bool
  sl_score :: real

definition scoreLegacy ::
  "DigitreeStore \<Rightarrow> coord \<Rightarrow> (peerId \<Rightarrow> bool) \<Rightarrow> (peerId \<Rightarrow> real) \<Rightarrow> peerId
   \<Rightarrow> ScoredLegacy option" where
  "scoreLegacy store targetCoord isConn linkQ i =
     (case getById store i of
        None \<Rightarrow> None
      | Some entry \<Rightarrow>
          (let d = xorDistance (pe_coord entry) targetCoord;
               conn = isConn i;
               score = (if conn then 1 else 0) + 0.25 * linkQ i
           in Some \<lparr>sl_id = i, sl_dist = d, sl_connected = conn, sl_score = score\<rparr>))"

text \<open>One round of the first loop: \<^verbatim>\<open>bestByDist\<close> after the entry \<open>s\<close> has been scored.\<close>

definition bestByDistStep :: "ScoredLegacy option \<Rightarrow> ScoredLegacy \<Rightarrow> ScoredLegacy option" where
  "bestByDistStep best s =
     (case best of
        None \<Rightarrow> Some s
      | Some b \<Rightarrow> if betterByDist (sl_id s) (sl_dist s) (sl_id b) (sl_dist b) then Some s else Some b)"

text \<open>
  \<^verbatim>\<open>lead <= bestLead + connectedToleranceBytes\<close>, where either side may be infinite.
\<close>

definition leadWithin :: "nat option \<Rightarrow> nat option \<Rightarrow> int \<Rightarrow> bool" where
  "leadWithin lead bestLead tol =
     (case bestLead of
        None \<Rightarrow> True
      | Some b \<Rightarrow> (case lead of None \<Rightarrow> False | Some l \<Rightarrow> int l \<le> int b + tol))"

text \<open>One round of the second loop: \<^verbatim>\<open>bestConnected\<close> after the scored entry \<open>s\<close>.\<close>

definition bestConnectedStep ::
  "nat option \<Rightarrow> int \<Rightarrow> ScoredLegacy option \<Rightarrow> ScoredLegacy \<Rightarrow> ScoredLegacy option" where
  "bestConnectedStep bestLead tol best s =
     (if \<not> sl_connected s then best
      else if leadWithin (leadingByteIndex (sl_dist s)) bestLead tol then
        (case best of
           None \<Rightarrow> Some s
         | Some bc \<Rightarrow>
             if betterByDist (sl_id s) (sl_dist s) (sl_id bc) (sl_dist bc) then Some s
             else if equalBytes (sl_dist s) (sl_dist bc) then
               (if sl_score s > sl_score bc \<or> (sl_score s = sl_score bc \<and> sl_id s < sl_id bc)
                then Some s else best)
             else best)
      else best)"

definition chooseNextHopLegacy ::
  "DigitreeStore \<Rightarrow> coord \<Rightarrow> peerId list \<Rightarrow> (peerId \<Rightarrow> bool) \<Rightarrow> (peerId \<Rightarrow> real)
   \<Rightarrow> int \<Rightarrow> peerId option" where
  "chooseNextHopLegacy store targetCoord candidates isConn linkQ tol =
     (let scored = List.map_filter (scoreLegacy store targetCoord isConn linkQ) candidates;
          bestByDist = foldl bestByDistStep None scored
      in case bestByDist of
           None \<Rightarrow> None
         | Some bd \<Rightarrow>
             (let bestLead = leadingByteIndex (sl_dist bd);
                  bestConnected = foldl (bestConnectedStep bestLead tol) None scored
              in case bestConnected of
                   Some bc \<Rightarrow> Some (sl_id bc)
                 | None \<Rightarrow> Some (sl_id bd)))"

definition chooseNextHop ::
  "DigitreeStore \<Rightarrow> coord \<Rightarrow> peerId list \<Rightarrow> (peerId \<Rightarrow> bool) \<Rightarrow> (peerId \<Rightarrow> real)
   \<Rightarrow> OptionsOrTolerance \<Rightarrow> peerId option" where
  "chooseNextHop store targetCoord candidates isConn linkQ optionsOrTolerance =
     (let opts = (case optionsOrTolerance of
                    Tolerance t \<Rightarrow> \<lparr>nearRadius = None, confidence = None, backoffPenalty = None,
                                     connectedToleranceBytes = Some t\<rparr>
                  | Options os \<Rightarrow> os
                  | NoOptions \<Rightarrow> \<lparr>nearRadius = None, confidence = None, backoffPenalty = None,
                                   connectedToleranceBytes = None\<rparr>)
      in if nearRadius opts \<noteq> None then
           chooseNextHopCost store targetCoord candidates isConn linkQ opts
         else
           chooseNextHopLegacy store targetCoord candidates isConn linkQ
             (case connectedToleranceBytes opts of None \<Rightarrow> 1 | Some t \<Rightarrow> t))"

subsection \<open>Concrete selector inputs\<close>

text \<open>A coordinate that is zero except for its last byte, as the repository's tests build it.\<close>

definition coordByte :: "byte \<Rightarrow> coord" where
  "coordByte b = replicate 31 0 @ [b]"

definition mkEntry :: "peerId \<Rightarrow> coord \<Rightarrow> PeerEntry" where
  "mkEntry i c = \<lparr>pe_id = i, pe_coord = c, pe_state = disconnected, pe_relevance = 0,
     pe_lastAccess = 0, pe_accessCount = 0, pe_successCount = 0, pe_failureCount = 0,
     pe_avgLatencyMs = 0\<rparr>"

text \<open>Two peers at one coordinate; only \<open>b\<close> has a live connection.\<close>

definition tieStore :: DigitreeStore where
  "tieStore = [mkEntry ''a'' (coordByte 201), mkEntry ''b'' (coordByte 201)]"

definition onlyB :: "peerId \<Rightarrow> bool" where
  "onlyB i = (i = ''b'')"

definition halfQ :: "peerId \<Rightarrow> real" where
  "halfQ i = 0.5"

definition nearOpts :: OptionsOrTolerance where
  "nearOpts = Options \<lparr>nearRadius = Some (computeNearRadius 10 5 2), confidence = Some 0.9,
      backoffPenalty = None, connectedToleranceBytes = None\<rparr>"

text \<open>
  A disconnected peer next to the target (distance in the last byte only) and a connected
  peer whose distance starts in the first byte.
\<close>

definition bandStore :: DigitreeStore where
  "bandStore = [mkEntry ''near'' (coordByte 201), mkEntry ''far'' (128 # replicate 30 0 @ [200])]"

definition onlyFar :: "peerId \<Rightarrow> bool" where
  "onlyFar i = (i = ''far'')"

text \<open>All peers connected; the link quality of \<open>b\<close> is 1, of any other peer 0.\<close>

definition allConnected :: "peerId \<Rightarrow> bool" where
  "allConnected i = True"

definition bestQ :: "peerId \<Rightarrow> real" where
  "bestQ i = (if i = ''b'' then 1 else 0)"

section \<open>Double-precision numbers\<close>

text \<open>
  A JavaScript number is an IEEE 754 double: a finite value (a rational number; zero
  carries a sign, \<open>Fin 0\<close> being the positive zero), an infinity, or NaN. Every operation
  computes the exact result and rounds it to the nearest double, ties to even, with gradual
  underflow and overflow to infinity.
\<close>

datatype dbl = Fin rat | NegZero | PInf | NInf | NaN

function pow2i :: "int \<Rightarrow> rat" where
  "pow2i k = (if k \<le> 0 then 1
              else (let h = pow2i (k div 2); s = h * h in if k mod 2 = 0 then s else 2 * s))"
  by pat_completeness auto
termination
  by (relation "measure nat") auto

declare pow2i.simps [simp del]

text \<open>The power \<open>2 ^ k\<close> for an integer \<open>k\<close>.\<close>

definition pow2 :: "int \<Rightarrow> rat" where
  "pow2 k = (if 0 \<le> k then pow2i k else 1 / pow2i (- k))"

text \<open>The number of binary digits of a positive integer.\<close>

function bitLen :: "int \<Rightarrow> int" where
  "bitLen n = (if n \<le> 0 then 0 else 1 + bitLen (n div 2))"
  by pat_completeness auto
termination
  by (relation "measure nat") auto

declare bitLen.simps [simp del]

text \<open>\<open>\<lfloor>log\<^sub>2 a\<rfloor>\<close> for a positive rational \<open>a\<close>.\<close>

definition floorLog2 :: "rat \<Rightarrow> int" where
  "floorLog2 a =
     (let d = bitLen (fst (quotient_of a)) - bitLen (snd (quotient_of a))
      in if pow2 d \<le> a then d else d - 1)"

definition roundHalfEven :: "rat \<Rightarrow> int" where
  "roundHalfEven q =
     (let n = \<lfloor>q\<rfloor>; f = q - of_int n
      in if f < 1 / 2 then n else if 1 / 2 < f then n + 1 else if even n then n else n + 1)"

text \<open>\<open>2 ^ 1024\<close>, the least magnitude that rounds to an infinity.\<close>

definition dblOverflow :: rat where
  "dblOverflow = 179769313486231590772930519078902473361797697894230657273430081157732675805500963132708477322407536021120113879871393357658789768814416622492847430639474124377767893424865485276302219601246094119453082952085005768838150682342462881473913110540827237163350510684586298239947245938479716304835356329624224137216"

text \<open>
  Rounding an exact result to a double: 53 significant bits, the unit in the last place
  never below \<open>2 ^ -1074\<close>. The sign of the exact result is kept where it rounds to zero.
\<close>

definition rd :: "rat \<Rightarrow> dbl" where
  "rd x =
     (if x = 0 then Fin 0
      else
        (let a = \<bar>x\<bar>;
             e = max (floorLog2 a) (- 1022);
             ulp = pow2 (e - 52);
             v = of_int (roundHalfEven (a / ulp)) * ulp
         in if dblOverflow \<le> v then (if 0 < x then PInf else NInf)
            else if v = 0 then (if 0 < x then Fin 0 else NegZero)
            else Fin (if 0 < x then v else - v)))"

definition signBit :: "dbl \<Rightarrow> bool" where
  "signBit d = (case d of Fin r \<Rightarrow> r < 0 | NegZero \<Rightarrow> True | NInf \<Rightarrow> True | PInf \<Rightarrow> False | NaN \<Rightarrow> False)"

definition isZero :: "dbl \<Rightarrow> bool" where
  "isZero d = (d = Fin 0 \<or> d = NegZero)"

definition isInf :: "dbl \<Rightarrow> bool" where
  "isInf d = (d = PInf \<or> d = NInf)"

definition signedZero :: "bool \<Rightarrow> dbl" where
  "signedZero negative = (if negative then NegZero else Fin 0)"

definition signedInf :: "bool \<Rightarrow> dbl" where
  "signedInf negative = (if negative then NInf else PInf)"

text \<open>The value of a finite double.\<close>

definition valOf :: "dbl \<Rightarrow> rat" where
  "valOf d = (case d of Fin r \<Rightarrow> r | _ \<Rightarrow> 0)"

definition dneg :: "dbl \<Rightarrow> dbl" where
  "dneg d = (case d of
               Fin r \<Rightarrow> if r = 0 then NegZero else Fin (- r)
             | NegZero \<Rightarrow> Fin 0 | PInf \<Rightarrow> NInf | NInf \<Rightarrow> PInf | NaN \<Rightarrow> NaN)"

definition dadd :: "dbl \<Rightarrow> dbl \<Rightarrow> dbl" where
  "dadd a b =
     (if a = NaN \<or> b = NaN then NaN
      else if isInf a \<or> isInf b then
        (if isInf a \<and> isInf b \<and> a \<noteq> b then NaN else if isInf a then a else b)
      else if a = NegZero \<and> b = NegZero then NegZero
      else if valOf a + valOf b = 0 then Fin 0
      else rd (valOf a + valOf b))"

definition dsub :: "dbl \<Rightarrow> dbl \<Rightarrow> dbl" where
  "dsub a b = dadd a (dneg b)"

definition dmul :: "dbl \<Rightarrow> dbl \<Rightarrow> dbl" where
  "dmul a b =
     (if a = NaN \<or> b = NaN then NaN
      else if isInf a \<or> isInf b then
        (if isZero a \<or> isZero b then NaN else signedInf (signBit a \<noteq> signBit b))
      else if isZero a \<or> isZero b then signedZero (signBit a \<noteq> signBit b)
      else rd (valOf a * valOf b))"

definition ddiv :: "dbl \<Rightarrow> dbl \<Rightarrow> dbl" where
  "ddiv a b =
     (if a = NaN \<or> b = NaN then NaN
      else if isInf a then (if isInf b then NaN else signedInf (signBit a \<noteq> signBit b))
      else if isInf b then signedZero (signBit a \<noteq> signBit b)
      else if isZero b then (if isZero a then NaN else signedInf (signBit a \<noteq> signBit b))
      else if isZero a then signedZero (signBit a \<noteq> signBit b)
      else rd (valOf a / valOf b))"

definition dabs :: "dbl \<Rightarrow> dbl" where
  "dabs d = (case d of Fin r \<Rightarrow> Fin \<bar>r\<bar> | NegZero \<Rightarrow> Fin 0 | PInf \<Rightarrow> PInf | NInf \<Rightarrow> PInf | NaN \<Rightarrow> NaN)"

text \<open>Comparison: false when an operand is NaN; the two zeros are equal.\<close>

definition rank :: "dbl \<Rightarrow> int" where
  "rank d = (case d of NInf \<Rightarrow> - 1 | PInf \<Rightarrow> 1 | _ \<Rightarrow> 0)"

definition dlt :: "dbl \<Rightarrow> dbl \<Rightarrow> bool" where
  "dlt a b =
     (if a = NaN \<or> b = NaN then False
      else rank a < rank b \<or> (rank a = rank b \<and> valOf a < valOf b))"

definition dle :: "dbl \<Rightarrow> dbl \<Rightarrow> bool" where
  "dle a b = (if a = NaN \<or> b = NaN then False else \<not> dlt b a)"

text \<open>The double of an integer and of a decimal literal.\<close>

definition dblOfInt :: "int \<Rightarrow> dbl" where
  "dblOfInt n = rd (of_int n)"

definition dblOfNat :: "nat \<Rightarrow> dbl" where
  "dblOfNat n = rd (of_nat n)"

section \<open>Size and partition estimator (service/fret-service.ts)\<close>

text \<open>
  Estimates and confidences are doubles; timestamps are the integers of \<^verbatim>\<open>Date.now()\<close>.
  The clock is the argument \<open>now\<close>, read once per call. The result of
  \<^verbatim>\<open>getNetworkSizeEstimate\<close> is an argument of \<^verbatim>\<open>detectPartition\<close>: it rests on
  \<^verbatim>\<open>estimateSizeAndConfidence\<close>, which is not among the sources, and on \<^verbatim>\<open>Math.exp\<close>.
\<close>

record Observation =
  ob_estimate :: dbl
  ob_confidence :: dbl
  ob_timestamp :: int
  ob_source :: string

record SizeEstimate =
  size_estimate :: dbl
  se_confidence :: dbl
  se_sources :: nat

definition observationWindowMs :: int where
  "observationWindowMs = 300000"

text \<open>\<^verbatim>\<open>xs.reduce((sum, o) => sum + o.estimate, 0)\<close>\<close>

definition sumEstimates :: "Observation list \<Rightarrow> dbl" where
  "sumEstimates xs = foldl (\<lambda>s ob. dadd s (ob_estimate ob)) (Fin 0) xs"

definition getNetworkChurn :: "Observation list \<Rightarrow> int \<Rightarrow> dbl" where
  "getNetworkChurn networkObservations now =
     (if length networkObservations < 2 then Fin 0
      else
        (let halfWindow = observationWindowMs div 2;
             cutoff = now - halfWindow;
             recentObs = filter (\<lambda>ob. ob_timestamp ob > cutoff) networkObservations;
             olderObs = filter (\<lambda>ob. ob_timestamp ob \<le> cutoff) networkObservations
         in if length recentObs = 0 \<or> length olderObs = 0 then Fin 0
            else
              (let recentAvg = ddiv (sumEstimates recentObs) (dblOfNat (length recentObs));
                   olderAvg = ddiv (sumEstimates olderObs) (dblOfNat (length olderObs));
                   changePerMs = ddiv (dsub recentAvg olderAvg) (dblOfInt halfWindow)
               in dmul changePerMs (Fin 60000))))"

text \<open>\<^verbatim>\<open>xs.slice(-n)\<close>: the last \<open>n\<close> elements, or all of them.\<close>

definition sliceLast :: "nat \<Rightarrow> 'a list \<Rightarrow> 'a list" where
  "sliceLast n xs = drop (length xs - n) xs"

definition detectPartition :: "Observation list \<Rightarrow> int \<Rightarrow> SizeEstimate \<Rightarrow> bool" where
  "detectPartition networkObservations now current =
     (if length networkObservations < 10 then False
      else if dlt (se_confidence current) (rd (3 / 10)) then False
      else
        (let thirtySecondsAgo = now - 30000;
             oldObs = filter (\<lambda>ob. ob_timestamp ob < thirtySecondsAgo) networkObservations
         in if length oldObs < 3 then False
            else
              (let oldAvg = ddiv (sumEstimates (sliceLast 5 oldObs))
                              (dblOfNat (min 5 (length oldObs)));
                   dropRatio = ddiv (size_estimate current) oldAvg
               in if dlt dropRatio (Fin (1 / 2)) then True
                  else
                    (let churn = dabs (getNetworkChurn networkObservations now);
                         churnThreshold = dmul (size_estimate current) (rd (1 / 10))
                     in dlt churnThreshold churn))))"

text \<open>
  The specification's wording of the partition detector: false below 10 observations;
  otherwise true exactly when (the estimate is below half of the mean of the last five
  observations older than 30 s, and the confidence is at least 0.3) or the absolute churn
  exceeds 10 % of the estimate.
\<close>

definition detectPartition_asSpecified :: "Observation list \<Rightarrow> int \<Rightarrow> SizeEstimate \<Rightarrow> bool" where
  "detectPartition_asSpecified networkObservations now current =
     (if length networkObservations < 10 then False
      else
        (let oldObs = filter (\<lambda>ob. ob_timestamp ob < now - 30000) networkObservations;
             mean = ddiv (sumEstimates (sliceLast 5 oldObs)) (dblOfNat (min 5 (length oldObs)))
         in (dlt (size_estimate current) (dmul (Fin (1 / 2)) mean)
               \<and> dle (rd (3 / 10)) (se_confidence current))
            \<or> dlt (dmul (size_estimate current) (rd (1 / 10)))
                 (dabs (getNetworkChurn networkObservations now))))"

text \<open>
  Ten observations of confidence 0.2: five of 100 peers, 200 s old, and five of 1000
  peers, 1 s old. With an own estimate of 1000 peers at confidence 0.5 the weighted
  estimate is 925 and the aggregate confidence about 0.15.
\<close>

definition obsAt :: "rat \<Rightarrow> int \<Rightarrow> Observation" where
  "obsAt e t = \<lparr>ob_estimate = Fin e, ob_confidence = rd (2 / 10), ob_timestamp = t,
                ob_source = ''external''\<rparr>"

definition growthObs :: "Observation list" where
  "growthObs = replicate 5 (obsAt 100 800000) @ replicate 5 (obsAt 1000 999000)"

definition lowConfidence :: SizeEstimate where
  "lowConfidence = \<lparr>size_estimate = Fin 925, se_confidence = rd (15 / 100), se_sources = 11\<rparr>"

definition goodConfidence :: SizeEstimate where
  "goodConfidence = \<lparr>size_estimate = Fin 925, se_confidence = rd (6 / 10), se_sources = 11\<rparr>"

text \<open>
  Observations at which the churn, 36.400000000000006, and the threshold \<open>364 * 0.1\<close>,
  which rounds to 36.4, differ only by rounding.
\<close>

definition roundingObs :: "Observation list" where
  "roundingObs = replicate 5 (obsAt 100 800000) @ replicate 5 (obsAt 191 999000)"

definition roundingEstimate :: SizeEstimate where
  "roundingEstimate = \<lparr>size_estimate = Fin 364, se_confidence = rd (6 / 10), se_sources = 11\<rparr>"

section \<open>Store queries, capacity enforcement and cohorts (service/fret-service.ts)\<close>

text \<open>
  Modelled from the spec: the operations of the absent \<^verbatim>\<open>DigitreeStore\<close>. Section 4.2:
  \<^verbatim>\<open>upsert(id, coord)\<close> creates the entry or updates its coordinate; \<^verbatim>\<open>remove(id)\<close>
  destroys it; \<^verbatim>\<open>neighborsRight(coord, k)\<close> returns up to \<open>k\<close> ids in increasing
  coordinate order, starting at the first entry whose coordinate is at least \<open>coord\<close> and
  wrapping to the smallest coordinate; \<^verbatim>\<open>neighborsLeft\<close> mirrors this in decreasing
  order; no id is returned twice; equal coordinates are ordered by id (section 4.1);
  \<^verbatim>\<open>protectedIdsAround(coord, m)\<close> is the union of the \<open>m\<close> nearest on the right and
  the \<open>m\<close> nearest on the left.
\<close>

definition upsert :: "DigitreeStore \<Rightarrow> peerId \<Rightarrow> coord \<Rightarrow> DigitreeStore" where
  "upsert st i c =
     (case getById st i of
        None \<Rightarrow> st @ [mkEntry i c]
      | Some _ \<Rightarrow> map (\<lambda>e. if pe_id e = i then e\<lparr>pe_coord := c\<rparr> else e) st)"

definition remove :: "DigitreeStore \<Rightarrow> peerId \<Rightarrow> DigitreeStore" where
  "remove st i = filter (\<lambda>e. pe_id e \<noteq> i) st"

definition ringOrder :: "DigitreeStore \<Rightarrow> PeerEntry list" where
  "ringOrder st = sort_key (\<lambda>e. (pe_coord e, pe_id e)) st"

definition neighborsRight :: "DigitreeStore \<Rightarrow> coord \<Rightarrow> nat \<Rightarrow> peerId list" where
  "neighborsRight st c k =
     take k (map pe_id (filter (\<lambda>e. c \<le> pe_coord e) (ringOrder st)
                        @ filter (\<lambda>e. pe_coord e < c) (ringOrder st)))"

definition neighborsLeft :: "DigitreeStore \<Rightarrow> coord \<Rightarrow> nat \<Rightarrow> peerId list" where
  "neighborsLeft st c k =
     take k (map pe_id (rev (filter (\<lambda>e. pe_coord e \<le> c) (ringOrder st))
                        @ rev (filter (\<lambda>e. c < pe_coord e) (ringOrder st))))"

definition protectedIdsAround :: "DigitreeStore \<Rightarrow> coord \<Rightarrow> nat \<Rightarrow> peerId set" where
  "protectedIdsAround st c m = set (neighborsRight st c m) \<union> set (neighborsLeft st c m)"

text \<open>The service's configuration (\<^verbatim>\<open>FretConfig\<close>).\<close>

datatype Profile = edge | core

record FretConfig =
  cfg_k :: nat
  cfg_m :: nat
  cfg_capacity :: nat
  cfg_profile :: Profile

text \<open>
  The loop of \<^verbatim>\<open>enforceCapacity\<close> over the entries sorted by relevance: stop as soon as
  the store fits, skip a protected id, remove any other.
\<close>

fun evictLoop :: "nat \<Rightarrow> peerId set \<Rightarrow> PeerEntry list \<Rightarrow> DigitreeStore \<Rightarrow> DigitreeStore" where
  "evictLoop cap protectedIds [] st = st"
| "evictLoop cap protectedIds (e # es) st =
     (if length st \<le> cap then st
      else if pe_id e \<in> protectedIds then evictLoop cap protectedIds es st
      else evictLoop cap protectedIds es (remove st (pe_id e)))"

definition enforceCapacity :: "FretConfig \<Rightarrow> coord option \<Rightarrow> DigitreeStore \<Rightarrow> DigitreeStore" where
  "enforceCapacity cfg cachedSelfCoord st =
     (let cap = max 1 (cfg_capacity cfg) in
      if length st \<le> cap then st
      else
        (case cachedSelfCoord of
           None \<Rightarrow> st
         | Some self \<Rightarrow>
             (let protectedIds = protectedIdsAround st self (max 2 (cfg_m cfg));
                  entries = jsSort (\<lambda>a b. pe_relevance a - pe_relevance b) st
              in evictLoop cap protectedIds entries st)))"

text \<open>Any sequence of upserts.\<close>

definition upserts :: "DigitreeStore \<Rightarrow> (peerId \<times> coord) list \<Rightarrow> DigitreeStore" where
  "upserts st ops = foldl (\<lambda>s (i, c). upsert s i c) st ops"

text \<open>
  \<^verbatim>\<open>Array.from(new Set(xs))\<close>: the elements of \<open>xs\<close> in the order of their first
  occurrence.
\<close>

fun uniqFrom :: "'a list \<Rightarrow> 'a list \<Rightarrow> 'a list" where
  "uniqFrom seen [] = []"
| "uniqFrom seen (x # xs) = (if x \<in> set seen then uniqFrom seen xs else x # uniqFrom (x # seen) xs)"

definition uniq :: "'a list \<Rightarrow> 'a list" where
  "uniq xs = uniqFrom [] xs"

text \<open>\<^verbatim>\<open>if (id && !ex.has(id)) out.push(id)\<close>: the empty string is falsy.\<close>

definition pushUnlessExcluded :: "peerId set \<Rightarrow> peerId \<Rightarrow> peerId list \<Rightarrow> peerId list" where
  "pushUnlessExcluded ex i out = (if i \<noteq> [] \<and> i \<notin> ex then out @ [i] else out)"

text \<open>
  The while loop of \<^verbatim>\<open>assembleCohort\<close>. The cursors \<^verbatim>\<open>si\<close> and \<^verbatim>\<open>pi\<close> are the
  parts of \<^verbatim>\<open>succIds\<close> and \<^verbatim>\<open>predIds\<close> not yet read.
\<close>

function cohortLoop :: "nat \<Rightarrow> peerId set \<Rightarrow> peerId list \<Rightarrow> peerId list \<Rightarrow> peerId list \<Rightarrow> peerId list" where
  "cohortLoop wants ex out succIds predIds =
     (if length out < wants \<and> (succIds \<noteq> [] \<or> predIds \<noteq> []) then
        (if length out mod 2 = 0 \<and> succIds \<noteq> [] then
           cohortLoop wants ex (pushUnlessExcluded ex (hd succIds) out) (tl succIds) predIds
         else if predIds \<noteq> [] then
           cohortLoop wants ex (pushUnlessExcluded ex (hd predIds) out) succIds (tl predIds)
         else
           cohortLoop wants ex (pushUnlessExcluded ex (hd succIds) out) (tl succIds) predIds)
      else out)"
  by pat_completeness auto
termination
  by (relation "measure (\<lambda>(wants, ex, out, succIds, predIds). length succIds + length predIds)")
     (auto simp: neq_Nil_conv)

declare cohortLoop.simps [simp del]

definition assembleCohort :: "DigitreeStore \<Rightarrow> coord \<Rightarrow> nat \<Rightarrow> peerId set \<Rightarrow> peerId list" where
  "assembleCohort st hashedCoord wants ex =
     (let succIds = neighborsRight st hashedCoord (wants * 2);
          predIds = neighborsLeft st hashedCoord (wants * 2);
          out = cohortLoop wants ex [] succIds predIds
      in take wants (uniq out))"

text \<open>
  The number of ids in a list that the loop reads without pushing: the empty ones and the
  excluded ones.
\<close>

definition skipped :: "peerId set \<Rightarrow> peerId list \<Rightarrow> nat" where
  "skipped ex ids = length (filter (\<lambda>i. i = [] \<or> i \<in> ex) ids)"

text \<open>Six peers on the ring, at last-byte coordinates 10, 20, ..., 60.\<close>

definition sixPeers :: DigitreeStore where
  "sixPeers = [mkEntry ''x0'' (coordByte 10), mkEntry ''x1'' (coordByte 20),
               mkEntry ''x2'' (coordByte 30), mkEntry ''x3'' (coordByte 40),
               mkEntry ''x4'' (coordByte 50), mkEntry ''x5'' (coordByte 60)]"

text \<open>The six peers with relevance scores, and a configuration with room for five entries.\<close>

definition rankedPeers :: DigitreeStore where
  "rankedPeers = map (\<lambda>(e, r). e\<lparr>pe_relevance := r\<rparr>) (zip sixPeers [0.1, 5, 3, 1, 2, 0.2])"

definition smallCfg :: FretConfig where
  "smallCfg = \<lparr>cfg_k = 3, cfg_m = 2, cfg_capacity = 5, cfg_profile = core\<rparr>"

text \<open>
  The upserts that build the six peers from the empty store, and a configuration with room
  for two entries.
\<close>

definition sixOps :: "(peerId \<times> coord) list" where
  "sixOps = [(''x0'', coordByte 10), (''x1'', coordByte 20), (''x2'', coordByte 30),
             (''x3'', coordByte 40), (''x4'', coordByte 50), (''x5'', coordByte 60)]"

definition tightCfg :: FretConfig where
  "tightCfg = \<lparr>cfg_k = 3, cfg_m = 2, cfg_capacity = 2, cfg_profile = core\<rparr>"

section \<open>Dedup cache (service/dedup-cache.ts)\<close>

text \<open>
  A JavaScript \<^verbatim>\<open>Map\<close> iterates in insertion order: the entries are an association
  list, oldest first, with one pair for each key. The clock is an argument.
\<close>

record 'r DedupCache =
  dc_entries :: "(string \<times> ('r \<times> int)) list"
  dc_ttlMs :: int
  dc_maxSize :: nat

definition newDedupCache :: "'r DedupCache" where
  "newDedupCache = \<lparr>dc_entries = [], dc_ttlMs = 30000, dc_maxSize = 1024\<rparr>"

definition mapDelete :: "string \<Rightarrow> (string \<times> 'v) list \<Rightarrow> (string \<times> 'v) list" where
  "mapDelete k es = filter (\<lambda>(k', _). k' \<noteq> k) es"

text \<open>\<^verbatim>\<open>Map.set\<close>: a present key keeps its place, a new key goes to the end.\<close>

definition mapSet :: "string \<Rightarrow> 'v \<Rightarrow> (string \<times> 'v) list \<Rightarrow> (string \<times> 'v) list" where
  "mapSet k v es =
     (if k \<in> fst ` set es then map (\<lambda>(k', v'). if k' = k then (k', v) else (k', v')) es
      else es @ [(k, v)])"

definition dedupGet :: "'r DedupCache \<Rightarrow> string \<Rightarrow> int \<Rightarrow> 'r option \<times> 'r DedupCache" where
  "dedupGet c k now =
     (case map_of (dc_entries c) k of
        None \<Rightarrow> (None, c)
      | Some (result, expires) \<Rightarrow>
          if expires < now then (None, c\<lparr>dc_entries := mapDelete k (dc_entries c)\<rparr>)
          else (Some result, c))"

definition evictExpired :: "int \<Rightarrow> (string \<times> ('r \<times> int)) list \<Rightarrow> (string \<times> ('r \<times> int)) list" where
  "evictExpired now es = filter (\<lambda>(_, (_, expires)). \<not> expires < now) es"

definition evictOldest :: "(string \<times> 'v) list \<Rightarrow> (string \<times> 'v) list" where
  "evictOldest es = (case es of [] \<Rightarrow> [] | _ # rest \<Rightarrow> rest)"

definition dedupSet :: "'r DedupCache \<Rightarrow> string \<Rightarrow> 'r \<Rightarrow> int \<Rightarrow> 'r DedupCache" where
  "dedupSet c k result now =
     (let es1 = (if length (dc_entries c) \<ge> dc_maxSize c then evictExpired now (dc_entries c)
                 else dc_entries c);
          es2 = (if length es1 \<ge> dc_maxSize c then evictOldest es1 else es1)
      in c\<lparr>dc_entries := mapSet k (result, now + dc_ttlMs c) es2\<rparr>)"

section \<open>Route pipeline (service/fret-service.ts)\<close>

text \<open>
  The routing message. Its ttl is a JavaScript number as the wire delivers it: any double.
\<close>

record RouteAndMaybeActV1 =
  msg_key :: string
  msg_want_k :: "nat option"
  msg_wants :: "nat option"
  msg_ttl :: dbl
  msg_min_sigs :: nat
  msg_digest :: "string option"
  msg_activity :: "string option"
  msg_breadcrumbs :: "peerId list option"
  msg_correlation_id :: string
  msg_timestamp :: int
  msg_signature :: string

record NearAnchorV1 =
  na_anchors :: "peerId list"
  na_cohort_hint :: "peerId list"
  na_estimated_cluster_size :: real
  na_confidence :: real

text \<open>A reply: a near anchor, a busy response with its retry delay, or a commit certificate.\<close>

datatype Response = NearAnchor NearAnchorV1 | Busy int | Commit string

text \<open>What the handler gives back: a reply, or an exception that leaves the caller without one.\<close>

datatype Reply = Answered Response | HandlerThrew

text \<open>What \<^verbatim>\<open>sendMaybeAct\<close> gives back: a decoded reply, or an exception.\<close>

datatype SendOutcome = Replied Response | SendFailed

record Rejected =
  rj_payloadTooLarge :: nat
  rj_timestampBounds :: nat
  rj_ttlExpired :: nat
  rj_rateLimited :: nat

record ServiceState =
  ss_store :: DigitreeStore
  ss_dedupCache :: "Response DedupCache"
  ss_backoffMap :: "peerId \<rightharpoonup> (int \<times> nat)"
  ss_inflightAct :: nat
  ss_maybeActForwarded :: nat
  ss_rejected :: Rejected

text \<open>
  What one invocation takes from outside the service: the host runtime (own peer id, clock,
  connections, the reply of the next hop, the activity callback, \<open>None\<close> when it throws) and
  the modules that are not among the sources (hashing of keys and peer ids, the size
  estimator, the token bucket's verdict and retry delay, the relevance update after a
  success). The clock is read once per invocation. \<open>env_hashKey\<close> is
  \<^verbatim>\<open>hashKey(u8FromString(key, 'base64url'))\<close>: \<open>None\<close> where the decoder throws, which it
  does on a key that is not base64url.
\<close>

record Env =
  env_selfId :: peerId
  env_now :: int
  env_hashKey :: "string \<Rightarrow> coord option"
  env_hashPeerId :: "peerId \<Rightarrow> coord"
  env_isConnected :: "peerId \<Rightarrow> bool"
  env_estimate :: "DigitreeStore \<Rightarrow> nat \<Rightarrow> real \<times> real"
  env_tryTake :: bool
  env_retryAfterMs :: int
  env_activityHandler :: "(string \<Rightarrow> peerId list \<Rightarrow> nat \<Rightarrow> string \<Rightarrow> string option) option"
  env_sendMaybeAct :: "peerId \<Rightarrow> RouteAndMaybeActV1 \<Rightarrow> SendOutcome"
  env_scoreSuccess :: "PeerEntry \<Rightarrow> real \<Rightarrow> PeerEntry"

text \<open>
  Modelled from the spec: \<^verbatim>\<open>validateTimestamp\<close> (\<^verbatim>\<open>rpc/protocols.ts\<close>) is not among the
  sources. Section 4.9: the timestamp is valid when it is within five minutes of the clock.
\<close>

definition validateTimestamp :: "int \<Rightarrow> int \<Rightarrow> bool" where
  "validateTimestamp now ts = (\<bar>now - ts\<bar> \<le> 5 * 60 * 1000)"

fun indexOf :: "'a \<Rightarrow> 'a list \<Rightarrow> nat option" where
  "indexOf x [] = None"
| "indexOf x (y # ys) = (if y = x then Some 0 else map_option Suc (indexOf x ys))"

text \<open>\<^verbatim>\<open>neighborDistance\<close>: \<open>None\<close> stands for \<^verbatim>\<open>Number.POSITIVE_INFINITY\<close>.\<close>

definition neighborDistance :: "DigitreeStore \<Rightarrow> peerId \<Rightarrow> coord \<Rightarrow> nat \<Rightarrow> nat option" where
  "neighborDistance st selfId hashedCoord k =
     indexOf selfId (assembleCohort st hashedCoord (max 1 k) {})"

datatype Direction = dirLeft | dirRight | dirBoth

definition getNeighbors :: "DigitreeStore \<Rightarrow> coord \<Rightarrow> Direction \<Rightarrow> nat \<Rightarrow> peerId list" where
  "getNeighbors st hashedCoord direction wants =
     (let ids1 = (if direction = dirRight \<or> direction = dirBoth
                  then neighborsRight st hashedCoord wants else []);
          ids2 = (if direction = dirLeft \<or> direction = dirBoth
                  then ids1 @ neighborsLeft st hashedCoord wants else ids1)
      in take wants (uniq ids2))"

text \<open>\<^verbatim>\<open>[first, second].filter(Boolean)\<close> drops what is undefined or the empty string.\<close>

definition truthyIds :: "peerId option list \<Rightarrow> peerId list" where
  "truthyIds xs = concat (map (\<lambda>x. case x of None \<Rightarrow> [] | Some i \<Rightarrow> if i = [] then [] else [i]) xs)"

definition pickAnchors :: "DigitreeStore \<Rightarrow> (peerId \<Rightarrow> bool) \<Rightarrow> peerId list \<Rightarrow> peerId list" where
  "pickAnchors st isConn candidates =
     (let unique = uniq candidates in
      if unique = [] then []
      else
        (let linkQ = (\<lambda>_. 0.5);
             selfCoord = replicate 32 0;
             first = chooseNextHop st selfCoord unique isConn linkQ NoOptions;
             rest = filter (\<lambda>i. Some i \<noteq> first) unique;
             second = chooseNextHop st selfCoord rest isConn linkQ NoOptions
         in truthyIds [first, second]))"

text \<open>\<^verbatim>\<open>nearAnchorOnly\<close> decodes the key first: \<open>None\<close> when that throws.\<close>

definition nearAnchorOnly ::
  "Env \<Rightarrow> FretConfig \<Rightarrow> DigitreeStore \<Rightarrow> RouteAndMaybeActV1 \<Rightarrow> NearAnchorV1 option" where
  "nearAnchorOnly env cfg st msg =
     (case env_hashKey env (msg_key msg) of
        None \<Rightarrow> None
      | Some c \<Rightarrow>
          (let rightIds = getNeighbors st c dirRight (cfg_m cfg);
               leftIds = getNeighbors st c dirLeft (cfg_m cfg);
               anchors = pickAnchors st (env_isConnected env) (take 3 rightIds @ take 3 leftIds)
           in Some \<lparr>na_anchors = anchors,
                     na_cohort_hint = uniq (take 2 rightIds @ take 2 leftIds),
                     na_estimated_cluster_size = real (cfg_k cfg),
                     na_confidence = 0.5\<rparr>))"

text \<open>\<^verbatim>\<open>return await this.nearAnchorOnly(msg)\<close>: the anchor as the reply, or the exception.\<close>

definition replyNearAnchorOnly :: "Env \<Rightarrow> FretConfig \<Rightarrow> DigitreeStore \<Rightarrow> RouteAndMaybeActV1 \<Rightarrow> Reply" where
  "replyNearAnchorOnly env cfg st msg =
     (case nearAnchorOnly env cfg st msg of
        None \<Rightarrow> HandlerThrew
      | Some a \<Rightarrow> Answered (NearAnchor a))"

definition buildNearAnchor ::
  "Env \<Rightarrow> FretConfig \<Rightarrow> DigitreeStore \<Rightarrow> coord \<Rightarrow> real \<Rightarrow> real \<Rightarrow> NearAnchorV1" where
  "buildNearAnchor env cfg st c n conf =
     (let rightIds = getNeighbors st c dirRight (cfg_m cfg);
          leftIds = getNeighbors st c dirLeft (cfg_m cfg);
          anchors = pickAnchors st (env_isConnected env) (take 4 rightIds @ take 4 leftIds)
      in \<lparr>na_anchors = anchors,
          na_cohort_hint = uniq (take 4 rightIds @ take 4 leftIds),
          na_estimated_cluster_size = max (real (cfg_k cfg)) n,
          na_confidence = conf\<rparr>)"

definition linkQuality :: "DigitreeStore \<Rightarrow> peerId \<Rightarrow> real" where
  "linkQuality st i =
     (case getById st i of
        None \<Rightarrow> 0
      | Some entry \<Rightarrow>
          (let total = pe_successCount entry + pe_failureCount entry
           in if total = 0 then 0.5 else real (pe_successCount entry) / real total))"

definition recordBackoff :: "int \<Rightarrow> peerId \<Rightarrow> (peerId \<rightharpoonup> (int \<times> nat)) \<Rightarrow> (peerId \<rightharpoonup> (int \<times> nat))" where
  "recordBackoff now i bm =
     (let factor = (case bm i of None \<Rightarrow> 1 | Some (_, f) \<Rightarrow> min (f * 2) 32)
      in bm(i \<mapsto> (now + 1000 * int factor, factor)))"

definition clearBackoff :: "peerId \<Rightarrow> (peerId \<rightharpoonup> (int \<times> nat)) \<Rightarrow> (peerId \<rightharpoonup> (int \<times> nat))" where
  "clearBackoff i bm = bm(i := None)"

text \<open>
  \<^verbatim>\<open>getBackoffPenalty\<close> returns the penalty and deletes an expired entry; the selector
  calls it for every candidate it scores.
\<close>

definition getBackoffPenalty :: "int \<Rightarrow> (peerId \<rightharpoonup> (int \<times> nat)) \<Rightarrow> peerId \<Rightarrow> real" where
  "getBackoffPenalty now bm i =
     (case bm i of
        None \<Rightarrow> 0
      | Some (until, factor) \<Rightarrow> if until < now then 0 else min 1 (real factor / 32))"

definition purgeBackoff :: "int \<Rightarrow> peerId list \<Rightarrow> (peerId \<rightharpoonup> (int \<times> nat)) \<Rightarrow> (peerId \<rightharpoonup> (int \<times> nat))" where
  "purgeBackoff now ids bm =
     (\<lambda>i. case bm i of
             None \<Rightarrow> None
           | Some (until, factor) \<Rightarrow> if i \<in> set ids \<and> until < now then None else Some (until, factor))"

definition buildNextHopOptions ::
  "FretConfig \<Rightarrow> int \<Rightarrow> (peerId \<rightharpoonup> (int \<times> nat)) \<Rightarrow> real \<Rightarrow> real \<Rightarrow> NextHopOptions" where
  "buildNextHopOptions cfg now bm sizeEstimate conf =
     \<lparr>nearRadius = Some (computeNearRadius sizeEstimate (int (cfg_k cfg)) 2),
      confidence = Some conf,
      backoffPenalty = Some (getBackoffPenalty now bm),
      connectedToleranceBytes = None\<rparr>"

text \<open>
  \<^verbatim>\<open>applySuccess\<close>: the entry is looked up or created, the relevance model scores the
  success, and four fields of the stored entry are updated from the scored copy.
\<close>

definition applySuccess :: "Env \<Rightarrow> DigitreeStore \<Rightarrow> peerId \<Rightarrow> coord \<Rightarrow> real \<Rightarrow> DigitreeStore" where
  "applySuccess env st i c latencyMs =
     (let st1 = (case getById st i of None \<Rightarrow> upsert st i c | Some _ \<Rightarrow> st);
          entry = (case getById st1 i of None \<Rightarrow> mkEntry i c | Some e \<Rightarrow> e);
          scored = env_scoreSuccess env entry latencyMs
      in map (\<lambda>e. if pe_id e = i
                   then e\<lparr>pe_lastAccess := pe_lastAccess scored, pe_relevance := pe_relevance scored,
                           pe_successCount := pe_successCount scored,
                           pe_avgLatencyMs := pe_avgLatencyMs scored\<rparr>
                   else e) st1)"

text \<open>
  \<^verbatim>\<open>routeAct\<close> returns a reply or throws (the key decoder's exception or the activity
  callback's).
\<close>

datatype RouteOutcome = Returned Response | Threw

type_synonym Sends = "(peerId \<times> RouteAndMaybeActV1) list"

text \<open>
  The body of \<^verbatim>\<open>if (next) { ... }\<close> in \<^verbatim>\<open>routeAct\<close>: the message is copied with
  \<^verbatim>\<open>msg.ttl - 1\<close>, a subtraction of doubles, as its ttl and the own id appended to the
  breadcrumbs, and sent to the chosen peer; a
  busy reply or an exception records a backoff and falls through to the fallback anchor.
  The third component lists the messages handed to \<^verbatim>\<open>sendMaybeAct\<close>, each with its
  target.
\<close>

definition forwardHop ::
  "Env \<Rightarrow> ServiceState \<Rightarrow> RouteAndMaybeActV1 \<Rightarrow> peerId \<Rightarrow> RouteOutcome
   \<Rightarrow> RouteOutcome \<times> ServiceState \<times> Sends" where
  "forwardHop env s1 msg nx fallback =
     (let selfId = env_selfId env;
          now = env_now env;
          st = ss_store s1;
          fwd = msg\<lparr>msg_ttl := dsub (msg_ttl msg) (Fin 1),
                   msg_breadcrumbs := Some (listOf (msg_breadcrumbs msg) @ [selfId])\<rparr>;
          s2 = s1\<lparr>ss_maybeActForwarded := ss_maybeActForwarded s1 + 1\<rparr>
      in case env_sendMaybeAct env nx fwd of
           Replied (Busy _) \<Rightarrow>
             (fallback, s2\<lparr>ss_backoffMap := recordBackoff now nx (ss_backoffMap s2)\<rparr>, [(nx, fwd)])
         | Replied result \<Rightarrow>
             (let nextCoord = (case getById st nx of
                                 Some e \<Rightarrow> pe_coord e
                               | None \<Rightarrow> env_hashPeerId env nx)
              in (Returned result,
                  s2\<lparr>ss_store := applySuccess env st nx nextCoord 0,
                     ss_backoffMap := clearBackoff nx (ss_backoffMap s2)\<rparr>,
                  [(nx, fwd)]))
         | SendFailed \<Rightarrow>
             (fallback, s2\<lparr>ss_backoffMap := recordBackoff now nx (ss_backoffMap s2)\<rparr>, [(nx, fwd)]))"

text \<open>The candidates of the forward step: the cohort around the key without the excluded ids.\<close>

definition forwardCandidates ::
  "Env \<Rightarrow> FretConfig \<Rightarrow> DigitreeStore \<Rightarrow> RouteAndMaybeActV1 \<Rightarrow> coord \<Rightarrow> peerId list" where
  "forwardCandidates env cfg st msg c =
     (let exclude = set (listOf (msg_breadcrumbs msg)) \<union> {env_selfId env}
      in filter (\<lambda>i. i \<notin> exclude) (assembleCohort st c (max 4 (cfg_m cfg)) {}))"

text \<open>The branch \<^verbatim>\<open>if (msg.ttl > 0) { ... }\<close> of \<^verbatim>\<open>routeAct\<close>.\<close>

definition routeForward ::
  "Env \<Rightarrow> FretConfig \<Rightarrow> ServiceState \<Rightarrow> RouteAndMaybeActV1 \<Rightarrow> coord \<Rightarrow> real \<Rightarrow> real
   \<Rightarrow> RouteOutcome \<Rightarrow> RouteOutcome \<times> ServiceState \<times> Sends" where
  "routeForward env cfg s msg c n conf fallback =
     (let now = env_now env;
          st = ss_store s;
          candidates = forwardCandidates env cfg st msg c;
          hopOpts = buildNextHopOptions cfg now (ss_backoffMap s) n conf;
          next = chooseNextHop st c candidates (env_isConnected env) (linkQuality st)
                   (Options hopOpts);
          s1 = s\<lparr>ss_backoffMap :=
                  purgeBackoff now (filter (\<lambda>i. getById st i \<noteq> None) candidates)
                    (ss_backoffMap s)\<rparr>
      in case next of
           None \<Rightarrow> (fallback, s1, [])
         | Some nx \<Rightarrow> if nx = [] then (fallback, s1, []) else forwardHop env s1 msg nx fallback)"

text \<open>The in-cluster branch of \<^verbatim>\<open>routeAct\<close>.\<close>

definition routeInCluster ::
  "Env \<Rightarrow> DigitreeStore \<Rightarrow> RouteAndMaybeActV1 \<Rightarrow> coord \<Rightarrow> nat \<Rightarrow> RouteOutcome \<Rightarrow> RouteOutcome" where
  "routeInCluster env st msg c wantK fallback =
     (case (msg_activity msg, env_activityHandler env) of
        (Some act, Some handler) \<Rightarrow>
          if act = [] then fallback
          else
            (case handler act (assembleCohort st c wantK {})
                    (msg_min_sigs msg) (msg_correlation_id msg) of
               Some cert \<Rightarrow> Returned (Commit cert)
             | None \<Rightarrow> Threw)
      | _ \<Rightarrow> fallback)"

definition routeAct ::
  "Env \<Rightarrow> FretConfig \<Rightarrow> ServiceState \<Rightarrow> RouteAndMaybeActV1 \<Rightarrow> RouteOutcome \<times> ServiceState \<times> Sends" where
  "routeAct env cfg s msg =
     (case env_hashKey env (msg_key msg) of
        None \<Rightarrow> (Threw, s, [])
      | Some c \<Rightarrow>
          (let selfId = env_selfId env;
               st = ss_store s;
               (n, conf) = env_estimate env st (cfg_m cfg);
               wantK = (case msg_want_k msg of None \<Rightarrow> cfg_k cfg | Some w \<Rightarrow> w);
               distIdx = neighborDistance st selfId c (max 2 wantK);
               inCluster = (case distIdx of None \<Rightarrow> False | Some i \<Rightarrow> i \<le> 1);
               fallback = Returned (NearAnchor (buildNearAnchor env cfg st c n conf))
           in if inCluster then (routeInCluster env st msg c wantK fallback, s, [])
              else if dlt (Fin 0) (msg_ttl msg) then routeForward env cfg s msg c n conf fallback
              else (fallback, s, [])))"

text \<open>The \<^verbatim>\<open>return\<close> statement of \<^verbatim>\<open>handleMaybeAct\<close> that produced the reply.\<close>

datatype Path =
  LoopDetected | CacheHit | StaleTimestamp | TtlExpired | PayloadTooLarge
  | RateLimited | InflightCap | Routed | RouteFailed

definition bumpRejected :: "(Rejected \<Rightarrow> Rejected) \<Rightarrow> ServiceState \<Rightarrow> ServiceState" where
  "bumpRejected f s = s\<lparr>ss_rejected := f (ss_rejected s)\<rparr>"

definition handleMaybeAct ::
  "Env \<Rightarrow> FretConfig \<Rightarrow> ServiceState \<Rightarrow> RouteAndMaybeActV1
   \<Rightarrow> Reply \<times> ServiceState \<times> Sends \<times> Path" where
  "handleMaybeAct env cfg s msg =
     (let selfId = env_selfId env;
          now = env_now env;
          cid = msg_correlation_id msg
      in if selfId \<in> set (listOf (msg_breadcrumbs msg)) then
           (replyNearAnchorOnly env cfg (ss_store s) msg, s, [], LoopDetected)
         else
           (let lookup = (if cid \<noteq> [] then dedupGet (ss_dedupCache s) cid now
                          else (None, ss_dedupCache s));
                cached = fst lookup;
                s1 = s\<lparr>ss_dedupCache := snd lookup\<rparr>;
                rejection = replyNearAnchorOnly env cfg (ss_store s1) msg
            in case cached of
                 Some r \<Rightarrow> (Answered r, s1, [], CacheHit)
               | None \<Rightarrow>
                   if \<not> validateTimestamp now (msg_timestamp msg) then
                     (rejection,
                      bumpRejected (\<lambda>r. r\<lparr>rj_timestampBounds := rj_timestampBounds r + 1\<rparr>) s1,
                      [], StaleTimestamp)
                   else if dle (msg_ttl msg) (Fin 0) then
                     (rejection,
                      bumpRejected (\<lambda>r. r\<lparr>rj_ttlExpired := rj_ttlExpired r + 1\<rparr>) s1,
                      [], TtlExpired)
                   else if (case msg_activity msg of
                              None \<Rightarrow> False
                            | Some a \<Rightarrow> a \<noteq> [] \<and> int (length a) > 128 * 1024) then
                     (rejection,
                      bumpRejected (\<lambda>r. r\<lparr>rj_payloadTooLarge := rj_payloadTooLarge r + 1\<rparr>) s1,
                      [], PayloadTooLarge)
                   else if \<not> env_tryTake env then
                     (Answered (Busy (env_retryAfterMs env)),
                      bumpRejected (\<lambda>r. r\<lparr>rj_rateLimited := rj_rateLimited r + 1\<rparr>) s1,
                      [], RateLimited)
                   else if ss_inflightAct s1 \<ge> (if cfg_profile cfg = core then 16 else 4) then
                     (Answered (Busy 500),
                      bumpRejected (\<lambda>r. r\<lparr>rj_rateLimited := rj_rateLimited r + 1\<rparr>) s1,
                      [], InflightCap)
                   else
                     (let s2 = s1\<lparr>ss_inflightAct := ss_inflightAct s1 + 1\<rparr>
                      in case routeAct env cfg s2 msg of
                           (Returned result, s3, sends) \<Rightarrow>
                             (let s4 = (if cid \<noteq> []
                                        then s3\<lparr>ss_dedupCache :=
                                                 dedupSet (ss_dedupCache s3) cid result now\<rparr>
                                        else s3)
                              in (Answered result, s4\<lparr>ss_inflightAct := ss_inflightAct s4 - 1\<rparr>,
                                  sends, Routed))
                         | (Threw, s3, sends) \<Rightarrow>
                             (replyNearAnchorOnly env cfg (ss_store s3) msg,
                              s3\<lparr>ss_inflightAct := ss_inflightAct s3 - 1\<rparr>, sends, RouteFailed))))"

subsection \<open>A concrete service\<close>

text \<open>
  A key that decodes: the base64url text of 31 zero bytes and the byte 5. The text
  \<open>key\<close> does not decode (its last character leaves non-zero bits over).
\<close>

definition demoKey :: string where
  "demoKey = replicate 42 CHR ''A'' @ ''U''"

definition demoEnv :: Env where
  "demoEnv = \<lparr>env_selfId = ''x3'', env_now = 1000000,
     env_hashKey = (\<lambda>k. if k = demoKey then Some (coordByte 5) else None),
     env_hashPeerId = (\<lambda>_. coordByte 0), env_isConnected = (\<lambda>_. True),
     env_estimate = (\<lambda>_ _. (6, 0.5)), env_tryTake = True, env_retryAfterMs = 100,
     env_activityHandler = Some (\<lambda>_ _ _ _. Some ''cert''),
     env_sendMaybeAct = (\<lambda>_ _. Replied (Commit ''remote'')),
     env_scoreSuccess = (\<lambda>e _. e)\<rparr>"

definition demoState :: ServiceState where
  "demoState = \<lparr>ss_store = sixPeers, ss_dedupCache = newDedupCache, ss_backoffMap = Map.empty,
     ss_inflightAct = 0, ss_maybeActForwarded = 0,
     ss_rejected = \<lparr>rj_payloadTooLarge = 0, rj_timestampBounds = 0, rj_ttlExpired = 0,
                    rj_rateLimited = 0\<rparr>\<rparr>"

definition demoMsg :: "int \<Rightarrow> peerId list \<Rightarrow> RouteAndMaybeActV1" where
  "demoMsg ttl bc = \<lparr>msg_key = demoKey, msg_want_k = Some 2, msg_wants = None,
     msg_ttl = dblOfInt ttl,
     msg_min_sigs = 1, msg_digest = None, msg_activity = Some ''act'',
     msg_breadcrumbs = Some bc, msg_correlation_id = ''c1'', msg_timestamp = 1000000,
     msg_signature = ''''\<rparr>"

text \<open>
  A message that has visited \<open>x3\<close> and whose key is the text \<open>key\<close>, and a message with
  the ttl \<open>2 ^ 54\<close>.
\<close>

definition undecodableMsg :: RouteAndMaybeActV1 where
  "undecodableMsg = (demoMsg 3 [''x0'', ''x3''])\<lparr>msg_key := ''key''\<rparr>"

definition largeTtlMsg :: RouteAndMaybeActV1 where
  "largeTtlMsg = demoMsg 18014398509481984 [''x0'']"

text \<open>The same service seen from peer \<open>x0\<close>, the first member of the key's cohort.\<close>

definition inEnv :: Env where
  "inEnv = demoEnv\<lparr>env_selfId := ''x0''\<rparr>"



text \<open>
  The paths on which the handler answers without a result of \<^verbatim>\<open>routeAct\<close>: the four
  rejections, the two busy responses, and the fallback after an exception.
\<close>

definition rejectionPaths :: "Path set" where
  "rejectionPaths =
     {LoopDetected, StaleTimestamp, TtlExpired, PayloadTooLarge, RateLimited, InflightCap, RouteFailed}"

section \<open>Theorems\<close>

subsection \<open>Leave protocol\<close>

lemma sanitizeReplacements_listOf:
  "listOf (sanitizeReplacements parses ids) = filter parses (take MAX_REPLACEMENTS (listOf ids))"
  by (auto simp: sanitizeReplacements_def listOf_def Let_def split: option.splits)

lemma sanitizeReplacements_absent:
  "sanitizeReplacements parses ids = None \<longleftrightarrow> filter parses (take MAX_REPLACEMENTS (listOf ids)) = []"
  by (auto simp: sanitizeReplacements_def listOf_def Let_def split: option.splits)

text \<open>
  C8 (as stated, refuted). Dropping the unparseable ids and then truncating to 12 keeps a
  well-formed id that stands behind twelve unparseable ones; the handler does not receive it.
\<close>

theorem C8_dropThenTruncate_counterexample:
  "listOf (ln_replacements (registerLeave_notice onlyOk
      \<lparr>ln_from = ''p'', ln_replacements = Some wire13, ln_timestamp = 0\<rparr>))
   \<noteq> replacements_dropThenTruncate onlyOk wire13"
  by (simp add: registerLeave_notice_def sanitizeReplacements_def replacements_dropThenTruncate_def
      onlyOk_def wire13_def listOf_def MAX_REPLACEMENTS_def Let_def)

text \<open>
  C8 (amended). The list handed to the leave handler is the wire-level list truncated to its
  first 12 entries, with the unparseable ids among those dropped: it has at most 12 entries,
  all of them well-formed, it contains every well-formed id among the first 12 wire-level
  entries, and it is absent exactly when none of those 12 is well-formed.
\<close>

theorem C8_truncateThenDrop:
  fixes parses :: "peerId \<Rightarrow> bool" and msg :: LeaveNoticeV1
  defines "wire \<equiv> listOf (ln_replacements msg)"
  defines "got \<equiv> ln_replacements (registerLeave_notice parses msg)"
  shows "listOf got = filter parses (take 12 wire)
       \<and> length (listOf got) \<le> 12
       \<and> (\<forall>i \<in> set (listOf got). parses i)
       \<and> (\<forall>i \<in> set (take 12 wire). parses i \<longrightarrow> i \<in> set (listOf got))
       \<and> (got = None \<longleftrightarrow> filter parses (take 12 wire) = [])"
proof -
  have eq: "listOf got = filter parses (take 12 wire)"
    unfolding got_def wire_def registerLeave_notice_def
    by (simp add: sanitizeReplacements_listOf MAX_REPLACEMENTS_def)
  have "length (filter parses (take 12 wire)) \<le> length (take 12 wire)"
    by (rule length_filter_le)
  then have len: "length (listOf got) \<le> 12" using eq by simp
  have none: "got = None \<longleftrightarrow> filter parses (take 12 wire) = []"
    unfolding got_def wire_def registerLeave_notice_def
    by (simp add: sanitizeReplacements_absent MAX_REPLACEMENTS_def)
  from eq len none show ?thesis by simp
qed

theorem C8_truncateThenDrop_witness:
  "listOf (ln_replacements (registerLeave_notice onlyOk
      \<lparr>ln_from = ''p'', ln_replacements = Some [''??'', ''ok'', ''??''], ln_timestamp = 0\<rparr>)) = [''ok'']
   \<and> onlyOk ''ok''"
  using C8_truncateThenDrop [of onlyOk
      "\<lparr>ln_from = ''p'', ln_replacements = Some [''??'', ''ok'', ''??''], ln_timestamp = 0\<rparr>"]
  by (simp add: listOf_def onlyOk_def)

subsection \<open>Near radius\<close>

lemma fillBytes_length [simp]: "length (fillBytes n val out) = length out"
  by (induction n arbitrary: val out) simp_all

lemma byte_of_and255: "(word_of_int (val AND 255) :: byte) = word_of_int val"
proof -
  have "(255::int) = mask 8" by (simp add: mask_eq_exp_minus_1)
  then have "val AND 255 = take_bit 8 val" by (simp add: take_bit_eq_mask)
  then show ?thesis by (simp add: word_of_int_eq_iff)
qed

lemma fillBytes_nth:
  "n \<le> length out \<Longrightarrow> j < length out \<Longrightarrow>
   fillBytes n val out ! j = (if j < n then word_of_int (val div 256 ^ (n - 1 - j)) else out ! j)"
proof (induction n arbitrary: val out)
  case 0
  then show ?case by simp
next
  case (Suc n)
  have d: "drop_bit 8 val = val div 256" by (simp add: drop_bit_eq_div)
  have len: "n \<le> length (out[n := word_of_int (val AND 255)])" using Suc.prems by simp
  have j: "j < length (out[n := word_of_int (val AND 255)])" using Suc.prems by simp
  have step: "fillBytes (Suc n) val out ! j =
       (if j < n then word_of_int ((val div 256) div 256 ^ (n - 1 - j))
        else (out[n := word_of_int (val AND 255)]) ! j)"
    using Suc.IH [OF len j, of "drop_bit 8 val"] by (simp add: d)
  show ?case
  proof (cases "j < n")
    case True
    then have "Suc n - 1 - j = Suc (n - 1 - j)" by simp
    then have "val div 256 ^ (Suc n - 1 - j) = (val div 256) div 256 ^ (n - 1 - j)"
      using zdiv_zmult2_eq [of "256 ^ (n - 1 - j)" val 256] by simp
    with True step show ?thesis by simp
  next
    case False
    show ?thesis
    proof (cases "j = n")
      case True
      with step Suc.prems show ?thesis by (simp add: byte_of_and255)
    next
      case False
      with \<open>\<not> j < n\<close> step show ?thesis by simp
    qed
  qed
qed

lemma bigEndian32_nth: "j < 32 \<Longrightarrow> bigEndian32 v ! j = word_of_int (v div 256 ^ (31 - j))"
  unfolding bigEndian32_def by (simp del: upt_Suc)

lemma fillBytes_bigEndian32: "fillBytes 32 v (replicate 32 0) = bigEndian32 v"
proof (rule nth_equalityI)
  show "length (fillBytes 32 v (replicate 32 0)) = length (bigEndian32 v)"
    by (simp add: bigEndian32_def)
next
  fix i assume "i < length (fillBytes 32 v (replicate 32 0))"
  then have i: "i < 32" by simp
  then show "fillBytes 32 v (replicate 32 0) ! i = bigEndian32 v ! i"
    using fillBytes_nth [of 32 "replicate 32 0" i v] by (simp add: bigEndian32_nth)
qed

text \<open>
  C9. With \<open>\<beta> = 2\<close> the near radius is the 32-byte big-endian encoding of
  \<open>min (2 * k * (2^256 div max 1 (round n))) (2^256 - 1)\<close>, the division exact on
  integers, and it is the all-zero coordinate when the size estimate is below 1.
\<close>

theorem C9_computeNearRadius:
  "computeNearRadius sizeEstimate k 2 =
     (if sizeEstimate < 1 then replicate 32 0
      else bigEndian32 (min (2 * k * (2 ^ 256 div max 1 (jsRound sizeEstimate))) (2 ^ 256 - 1)))"
proof -
  have m: "\<And>v::int. (if v \<ge> 2 ^ 256 then 2 ^ 256 - 1 else v) = min v (2 ^ 256 - 1)"
    by (simp add: min_def)
  show ?thesis
    unfolding computeNearRadius_def Let_def RING_SIZE_def
    by (simp only: m fillBytes_bigEndian32 mult.commute mult.left_commute mult.assoc)
qed

lemma beValue_snoc: "beValue (bs @ [b]) = 256 * beValue bs + uint b"
  by (simp add: beValue_def)

lemma beEnc_Suc: "beEnc (Suc n) v = beEnc n (v div 256) @ [word_of_int v]"
proof -
  have "\<And>i. i < n \<Longrightarrow> v div 256 ^ (n - i) = v div 256 div 256 ^ (n - 1 - i)"
  proof -
    fix i assume "i < n"
    then have "n - i = Suc (n - 1 - i)" by simp
    then show "v div 256 ^ (n - i) = v div 256 div 256 ^ (n - 1 - i)"
      using zdiv_zmult2_eq [of "256 ^ (n - 1 - i)" v 256] by simp
  qed
  then show ?thesis by (simp add: beEnc_def)
qed

lemma uint_byte_of_int: "uint (word_of_int v :: byte) = v mod 256"
  by (simp add: uint_word_of_int)

lemma beValue_beEnc: "beValue (beEnc n v) = v mod 256 ^ n"
proof (induction n arbitrary: v)
  case 0
  then show ?case by (simp add: beEnc_def beValue_def)
next
  case (Suc n)
  have "beValue (beEnc (Suc n) v) = 256 * ((v div 256) mod 256 ^ n) + v mod 256"
    by (simp add: beEnc_Suc beValue_snoc Suc.IH uint_byte_of_int)
  also have "\<dots> = v mod 256 ^ Suc n"
    using zmod_zmult2_eq [of "256 ^ n" v 256] by simp
  finally show ?case .
qed

text \<open>The encoding is faithful: a value in range is read back from its 32 bytes.\<close>

lemma bigEndian32_value: "0 \<le> v \<Longrightarrow> v < 2 ^ 256 \<Longrightarrow> beValue (bigEndian32 v) = v"
proof -
  assume a: "0 \<le> v" "v < 2 ^ 256"
  have "bigEndian32 v = beEnc 32 v" by (simp add: bigEndian32_def beEnc_def)
  then have "beValue (bigEndian32 v) = v mod 256 ^ 32" by (simp add: beValue_beEnc)
  moreover have "(256::int) ^ 32 = 2 ^ 256" by simp
  ultimately show ?thesis using a by simp
qed

theorem C9_computeNearRadius_witness:
  "computeNearRadius 1000 3 2 = bigEndian32 (6 * (2 ^ 256 div 1000))"
  using C9_computeNearRadius [of 1000 3] by (simp add: jsRound_def)

subsection \<open>Next-hop selector\<close>

text \<open>
  C3 (the code at the failing input). Both candidates are near, at the same XOR distance
  from the target; \<open>b\<close> is connected and has the lower cost, \<open>a\<close> is not connected. The
  claim's order (distance, then connected first, then cost, then id) picks \<open>b\<close>; the
  selector returns \<open>a\<close>, because \<^verbatim>\<open>betterByDist\<close> has already decided the tie by id.
\<close>

theorem C3_near_tie_decided_by_id:
  "List.map_filter
     (scoreCandidate tieStore (coordByte 200) onlyB halfQ 0.9 (\<lambda>_. 0) (computeNearRadius 10 5 2))
     [''a'', ''b'']
   = [\<lparr>sc_id = ''a'', sc_dist = coordByte 1, sc_near = True, sc_connected = False,
        sc_costVal = - (601 / 12800)\<rparr>,
      \<lparr>sc_id = ''b'', sc_dist = coordByte 1, sc_near = True, sc_connected = True,
        sc_costVal = - (1241 / 12800)\<rparr>]
   \<and> chooseNextHop tieStore (coordByte 200) [''a'', ''b''] onlyB halfQ nearOpts = Some ''a''
   \<and> chooseNextHop tieStore (coordByte 200) [''b'', ''a''] onlyB halfQ nearOpts = Some ''a''"
  by code_simp

text \<open>
  C4 (the code at the failing input). The closest candidate \<open>near\<close> has leading byte index
  31 and is not connected; the only connected candidate \<open>far\<close> has leading byte index 0,
  far outside a band of one byte. The claim returns \<open>near\<close>; the selector returns \<open>far\<close>,
  for the default tolerance and for tolerance 0 alike: the test
  \<^verbatim>\<open>lead <= bestLead + connectedToleranceBytes\<close> holds for every candidate.
\<close>

theorem C4_legacy_band_is_vacuous:
  "map (\<lambda>s. (sl_id s, leadingByteIndex (sl_dist s), sl_connected s))
     (List.map_filter (scoreLegacy bandStore (coordByte 200) onlyFar halfQ) [''near'', ''far''])
   = [(''near'', Some 31, False), (''far'', Some 0, True)]
   \<and> chooseNextHop bandStore (coordByte 200) [''near'', ''far''] onlyFar halfQ NoOptions = Some ''far''
   \<and> chooseNextHop bandStore (coordByte 200) [''near'', ''far''] onlyFar halfQ (Tolerance 0) = Some ''far''"
  by code_simp

text \<open>
  The second tie-break of the legacy mode meets the same fate as the one of C3. Both peers
  are connected and at the same distance; \<open>b\<close> has the higher score. Scanned after \<open>b\<close>,
  the peer \<open>a\<close> replaces it through \<^verbatim>\<open>betterByDist\<close> on its lower id; scanned before
  \<open>b\<close>, it is replaced by \<open>b\<close> on the score. The result depends on the candidate order.
\<close>

lemma legacy_score_tie_depends_on_order:
  "map sl_score (List.map_filter (scoreLegacy tieStore (coordByte 200) allConnected bestQ) [''b'', ''a''])
     = [5 / 4, 1]
   \<and> chooseNextHop tieStore (coordByte 200) [''b'', ''a''] allConnected bestQ NoOptions = Some ''a''
   \<and> chooseNextHop tieStore (coordByte 200) [''a'', ''b''] allConnected bestQ NoOptions = Some ''b''"
  by code_simp

subsection \<open>Partition detector\<close>

text \<open>
  C5 (as stated, refuted). With ten observations, a churn of 360 peers per minute against
  an estimate of 925, and an aggregate confidence of 0.15, the specified detector reports
  a partition on the churn alone; the code has returned false at the confidence guard.
\<close>

theorem C5_churn_without_confidence_counterexample:
  "getNetworkChurn growthObs 1000000 = Fin 360
   \<and> detectPartition_asSpecified growthObs 1000000 lowConfidence
   \<and> \<not> detectPartition growthObs 1000000 lowConfidence"
  by code_simp

text \<open>
  C5 (amended). The detector returns true exactly when at least 10 observations are stored,
  the aggregate confidence is not below 0.3, at least three observations are older than
  30 s, and either the quotient of the current estimate by the mean of the last five (or
  fewer) of those older observations is below 0.5 or the absolute churn exceeds the
  product of the current estimate and 0.1; sum, mean, quotient, churn and product are the
  results of the double-precision operations. The confidence and the three older
  observations gate the churn test as well as the drop test.
\<close>

theorem C5_detectPartition:
  fixes obs :: "Observation list" and now :: int and cur :: SizeEstimate
  defines "old \<equiv> filter (\<lambda>ob. ob_timestamp ob < now - 30000) obs"
  defines "mean \<equiv> ddiv (foldl (\<lambda>s ob. dadd s (ob_estimate ob)) (Fin 0) (drop (length old - 5) old))
                      (dblOfNat (min 5 (length old)))"
  shows "detectPartition obs now cur =
     (10 \<le> length obs \<and> \<not> dlt (se_confidence cur) (rd (3 / 10)) \<and> 3 \<le> length old
      \<and> (dlt (ddiv (size_estimate cur) mean) (Fin (1 / 2))
           \<or> dlt (dmul (size_estimate cur) (rd (1 / 10))) (dabs (getNetworkChurn obs now))))"
  unfolding old_def mean_def
  by (auto simp: detectPartition_def Let_def sumEstimates_def sliceLast_def)

theorem C5_detectPartition_witness:
  "detectPartition growthObs 1000000 goodConfidence"
  unfolding C5_detectPartition by code_simp

text \<open>
  The rounding of every operation is part of the result: the churn of \<open>roundingObs\<close> is
  \<open>91 / 150000 * 60000\<close>, which is 36.4 exactly and 36.400000000000006 in doubles, the
  threshold \<open>364 * 0.1\<close> is 36.4 exactly and a double just below it, and the detector
  reports a partition.
\<close>

lemma detectPartition_rounding:
  "getNetworkChurn roundingObs 1000000 = Fin (1280711144033485 / 35184372088832)
   \<and> dmul (Fin 364) (rd (1 / 10)) = Fin (5122844576133939 / 140737488355328)
   \<and> detectPartition roundingObs 1000000 roundingEstimate"
  by code_simp

text \<open>The rounding function on a few known results of JavaScript arithmetic.\<close>

lemma rd_examples:
  "rd (1 / 10) = Fin (3602879701896397 / 36028797018963968)
   \<and> dadd (rd (1 / 10)) (rd (2 / 10)) = Fin (1351079888211149 / 4503599627370496)
   \<and> ddiv (Fin 1) (Fin 3) = Fin (6004799503160661 / 18014398509481984)
   \<and> rd (2 ^ 53 + 1) = Fin (2 ^ 53)
   \<and> ddiv (Fin 5) NegZero = NInf
   \<and> ddiv (Fin 0) (Fin 0) = NaN"
  by code_simp

subsection \<open>Cohort assembly\<close>

















text \<open>
  With unique ids the store holds at most one empty id and at most one copy of an excluded
  id: without an exclusion set the loop skips at most one id, and with a single excluded id
  and no empty id it skips at most one.
\<close>

lemma filter_eq_distinct: "distinct xs \<Longrightarrow> length (filter (\<lambda>i. i = y) xs) \<le> 1"
  by (induction xs) (auto simp: filter_empty_conv)

lemma skipped_no_exclusion: "distinct (map pe_id st) \<Longrightarrow> skipped {} (map pe_id st) \<le> 1"
  unfolding skipped_def using filter_eq_distinct [of "map pe_id st" "[]"] by simp

lemma skipped_one_excluded:
  assumes "distinct (map pe_id st)" and "[] \<notin> pe_id ` set st"
  shows "skipped {x} (map pe_id st) \<le> 1"
proof -
  have "\<And>i. i \<in> set (map pe_id st) \<Longrightarrow> i \<noteq> []" using assms(2) by (metis set_map)
  then have "filter (\<lambda>i. i = [] \<or> i \<in> {x}) (map pe_id st) = filter (\<lambda>i. i = x) (map pe_id st)"
    by (intro filter_cong) auto
  then show ?thesis
    unfolding skipped_def using filter_eq_distinct [OF assms(1), of x] by simp
qed




subsection \<open>Capacity enforcement\<close>

lemma set_insertBy [simp]: "set (insertBy cmp x xs) = insert x (set xs)"
  by (induction xs) auto

lemma set_jsSort [simp]: "set (jsSort cmp xs) = set xs"
  unfolding jsSort_def by (induction xs) auto

lemma sorted_insertBy:
  "sorted_wrt (\<lambda>a b. f a \<le> (f b :: real)) xs \<Longrightarrow>
   sorted_wrt (\<lambda>a b. f a \<le> f b) (insertBy (\<lambda>a b. f a - f b) x xs)"
  by (induction xs) auto

lemma sorted_jsSort:
  "sorted_wrt (\<lambda>a b. f a \<le> (f b :: real)) (jsSort (\<lambda>a b. f a - f b) xs)"
  unfolding jsSort_def by (induction xs) (auto intro: sorted_insertBy)

lemma set_remove [simp]: "set (remove st i) = {e \<in> set st. pe_id e \<noteq> i}"
  by (auto simp: remove_def)

lemma distinct_remove: "distinct (map pe_id st) \<Longrightarrow> distinct (map pe_id (remove st i))"
  by (simp add: remove_def distinct_map_filter)

lemma length_remove: "distinct (map pe_id st) \<Longrightarrow> length st \<le> Suc (length (remove st i))"
proof (induction st)
  case Nil
  then show ?case by (simp add: remove_def)
next
  case (Cons e st)
  show ?case
  proof (cases "pe_id e = i")
    case True
    then have "i \<notin> pe_id ` set st" using Cons.prems by auto
    then have "remove st i = st" by (auto simp: remove_def filter_id_conv)
    then show ?thesis using True by (simp add: remove_def)
  next
    case False
    then show ?thesis using Cons by (simp add: remove_def)
  qed
qed

lemma evictLoop_subset: "set (evictLoop cap P es st) \<subseteq> set st"
proof (induction es arbitrary: st)
  case Nil
  then show ?case by simp
next
  case (Cons e es)
  have "set (evictLoop cap P es (remove st (pe_id e))) \<subseteq> set st"
    using Cons.IH [of "remove st (pe_id e)"] by auto
  then show ?case using Cons.IH [of st] by simp
qed

lemma evictLoop_keeps_protected:
  "e \<in> set st \<Longrightarrow> pe_id e \<in> P \<Longrightarrow> e \<in> set (evictLoop cap P es st)"
proof (induction es arbitrary: st)
  case Nil
  then show ?case by simp
next
  case (Cons a es)
  show ?case
  proof (cases "pe_id a \<in> P")
    case True
    then show ?thesis using Cons by simp
  next
    case False
    then have "e \<in> set (remove st (pe_id a))" using Cons.prems by auto
    then have "e \<in> set (evictLoop cap P es (remove st (pe_id a)))"
      using Cons.IH Cons.prems(2) by blast
    then show ?thesis using Cons by simp
  qed
qed

lemma evictLoop_lowest_first:
  "sorted_wrt (\<lambda>a b. pe_relevance a \<le> pe_relevance b) es \<Longrightarrow>
   r \<in> set st \<Longrightarrow> r \<notin> set (evictLoop cap P es st) \<Longrightarrow>
   \<exists>a \<in> set es. pe_id a = pe_id r \<and> pe_id r \<notin> P \<and>
     (\<forall>x \<in> set es. pe_id x \<notin> P \<and> pe_id x \<in> pe_id ` set (evictLoop cap P es st)
        \<longrightarrow> pe_relevance a \<le> pe_relevance x)"
proof (induction es arbitrary: st)
  case Nil
  then show ?case by simp
next
  case (Cons e es)
  have srt: "sorted_wrt (\<lambda>a b. pe_relevance a \<le> pe_relevance b) es"
    and le: "\<forall>x \<in> set es. pe_relevance e \<le> pe_relevance x"
    using Cons.prems(1) by auto
  show ?case
  proof (cases "length st \<le> cap")
    case True
    then show ?thesis using Cons.prems by simp
  next
    case over: False
    show ?thesis
    proof (cases "pe_id e \<in> P")
      case True
      then have res: "evictLoop cap P (e # es) st = evictLoop cap P es st" using over by simp
      from Cons.IH [OF srt Cons.prems(2)] Cons.prems(3) res
      obtain a where a: "a \<in> set es" "pe_id a = pe_id r" "pe_id r \<notin> P"
        "\<forall>x \<in> set es. pe_id x \<notin> P \<and> pe_id x \<in> pe_id ` set (evictLoop cap P es st)
            \<longrightarrow> pe_relevance a \<le> pe_relevance x"
        by auto
      show ?thesis
        apply (rule bexI [of _ a])
        using a True res by auto
    next
      case False
      then have res: "evictLoop cap P (e # es) st = evictLoop cap P es (remove st (pe_id e))"
        using over by simp
      show ?thesis
      proof (cases "pe_id r = pe_id e")
        case True
        have "\<forall>x \<in> set (e # es). pe_relevance e \<le> pe_relevance x" using le by simp
        then show ?thesis
          apply (intro bexI [of _ e])
          using True False by auto
      next
        case ne: False
        then have rin: "r \<in> set (remove st (pe_id e))" using Cons.prems(2) by simp
        from Cons.IH [OF srt rin] Cons.prems(3) res
        obtain a where a: "a \<in> set es" "pe_id a = pe_id r" "pe_id r \<notin> P"
          "\<forall>x \<in> set es. pe_id x \<notin> P \<and> pe_id x \<in> pe_id ` set (evictLoop cap P es (remove st (pe_id e)))
              \<longrightarrow> pe_relevance a \<le> pe_relevance x"
          by auto
        have gone: "pe_id e \<notin> pe_id ` set (evictLoop cap P es (remove st (pe_id e)))"
          using evictLoop_subset [of cap P es "remove st (pe_id e)"] by auto
        show ?thesis
          apply (rule bexI [of _ a])
          using a res gone by auto
      qed
    qed
  qed
qed

lemma evictLoop_stops:
  "length (evictLoop cap P es st) \<le> cap
   \<or> (\<forall>x \<in> set (evictLoop cap P es st). pe_id x \<in> P \<or> pe_id x \<notin> pe_id ` set es)"
proof (induction es arbitrary: st)
  case Nil
  then show ?case by simp
next
  case (Cons e es)
  show ?case
  proof (cases "length st \<le> cap")
    case True
    then show ?thesis by simp
  next
    case over: False
    show ?thesis
    proof (cases "pe_id e \<in> P")
      case True
      then show ?thesis using over Cons.IH [of st] by auto
    next
      case False
      have "set (evictLoop cap P es (remove st (pe_id e))) \<subseteq> set (remove st (pe_id e))"
        by (rule evictLoop_subset)
      then have "\<forall>x \<in> set (evictLoop cap P es (remove st (pe_id e))). pe_id x \<noteq> pe_id e"
        by auto
      then show ?thesis using over False Cons.IH [of "remove st (pe_id e)"] by auto
    qed
  qed
qed

lemma evictLoop_no_more_than_needed:
  "distinct (map pe_id st) \<Longrightarrow> min (length st) cap \<le> length (evictLoop cap P es st)"
proof (induction es arbitrary: st)
  case Nil
  then show ?case by simp
next
  case (Cons e es)
  show ?case
  proof (cases "length st \<le> cap")
    case True
    then show ?thesis by simp
  next
    case over: False
    show ?thesis
    proof (cases "pe_id e \<in> P")
      case True
      then show ?thesis using over Cons.IH [OF Cons.prems] by simp
    next
      case False
      have d: "distinct (map pe_id (remove st (pe_id e)))" by (rule distinct_remove [OF Cons.prems])
      have "cap \<le> length (remove st (pe_id e))"
        using length_remove [OF Cons.prems, of "pe_id e"] over by simp
      then show ?thesis using over False Cons.IH [OF d] by simp
    qed
  qed
qed

lemma evictLoop_distinct:
  "distinct (map pe_id st) \<Longrightarrow> distinct (map pe_id (evictLoop cap P es st))"
  by (induction es arbitrary: st) (auto simp: distinct_remove)

lemma getById_None_iff: "getById st i = None \<longleftrightarrow> i \<notin> pe_id ` set st"
  by (auto simp: getById_def find_None_iff)

lemma upsert_distinct: "distinct (map pe_id st) \<Longrightarrow> distinct (map pe_id (upsert st i c))"
proof (cases "getById st i")
  case None
  assume "distinct (map pe_id st)"
  then show ?thesis using None by (simp add: upsert_def mkEntry_def getById_None_iff [symmetric])
next
  case (Some a)
  assume d: "distinct (map pe_id st)"
  have e: "(pe_id \<circ> (\<lambda>e. if pe_id e = i then e\<lparr>pe_coord := c\<rparr> else e)) = pe_id"
    by (rule ext) simp
  have "map pe_id (map (\<lambda>e. if pe_id e = i then e\<lparr>pe_coord := c\<rparr> else e) st) = map pe_id st"
    by (simp only: map_map e)
  moreover have "upsert st i c = map (\<lambda>e. if pe_id e = i then e\<lparr>pe_coord := c\<rparr> else e) st"
    using Some by (simp add: upsert_def)
  ultimately show ?thesis using d by (simp only:)
qed

lemma upserts_distinct: "distinct (map pe_id st) \<Longrightarrow> distinct (map pe_id (upserts st ops))"
  unfolding upserts_def
  by (induction ops arbitrary: st) (auto simp: upsert_distinct split: prod.splits)

lemma protectedIdsAround_subset: "protectedIdsAround st c m \<subseteq> pe_id ` set st"
proof -
  have "\<And>xs. set (take m (map pe_id xs)) \<subseteq> pe_id ` set xs"
    by (metis set_map set_take_subset)
  then show ?thesis
    unfolding protectedIdsAround_def neighborsRight_def neighborsLeft_def ringOrder_def
    by (auto dest!: in_set_takeD)
qed


text \<open>
  C6 (as stated, refuted). The six peers are upserted into the empty store and the
  capacity is 2. Around the self coordinate 10 the ids \<open>x0\<close>, \<open>x1\<close> and \<open>x5\<close> are
  protected: enforcement ends with these three entries, above the capacity. With no self
  coordinate recorded it removes nothing and ends with six.
\<close>

theorem C6_protected_above_capacity_counterexample:
  "upserts [] sixOps = sixPeers
   \<and> cfg_capacity tightCfg = 2
   \<and> map pe_id (enforceCapacity tightCfg (Some (coordByte 10)) (upserts [] sixOps))
       = [''x0'', ''x1'', ''x5'']
   \<and> \<not> length (enforceCapacity tightCfg (Some (coordByte 10)) (upserts [] sixOps))
         \<le> cfg_capacity tightCfg
   \<and> length (enforceCapacity tightCfg None (upserts [] sixOps)) = 6"
  by code_simp

text \<open>
  C6 (amended). After any sequence of upserts on a store with unique ids, capacity
  enforcement with a recorded self coordinate keeps every id of
  \<open>protectedIdsAround self (max 2 m)\<close>; it only removes entries, all of them unprotected;
  every removed entry has a relevance no higher than any unprotected entry that stays; it
  ends with the store within \<open>max 1 capacity\<close> or with nothing but protected entries left,
  hence with no more entries than the larger of \<open>max 1 capacity\<close> and the number of
  protected ids; and it never shrinks the store below \<open>max 1 capacity\<close>. With no self
  coordinate recorded it leaves the store as it is.
\<close>

theorem C6_enforceCapacity:
  fixes cfg :: FretConfig and self :: coord and base :: DigitreeStore and ops :: "(peerId \<times> coord) list"
  assumes d0: "distinct (map pe_id base)"
  defines "st \<equiv> upserts base ops"
  defines "cap \<equiv> max 1 (cfg_capacity cfg)"
  defines "prot \<equiv> protectedIdsAround st self (max 2 (cfg_m cfg))"
  defines "st' \<equiv> enforceCapacity cfg (Some self) st"
  shows "prot \<subseteq> pe_id ` set st'
       \<and> set st' \<subseteq> set st
       \<and> (\<forall>r \<in> set st - set st'. pe_id r \<notin> prot
             \<and> (\<forall>x \<in> set st'. pe_id x \<notin> prot \<longrightarrow> pe_relevance r \<le> pe_relevance x))
       \<and> (length st' \<le> cap \<or> pe_id ` set st' \<subseteq> prot)
       \<and> length st' \<le> max cap (card prot)
       \<and> min (length st) cap \<le> length st'
       \<and> enforceCapacity cfg None st = st"
proof (cases "length st \<le> cap")
  case True
  then have same: "st' = st" by (simp add: st'_def enforceCapacity_def cap_def Let_def)
  have "prot \<subseteq> pe_id ` set st" unfolding prot_def by (rule protectedIdsAround_subset)
  moreover have "enforceCapacity cfg None st = st" by (simp add: enforceCapacity_def Let_def)
  ultimately show ?thesis using True same by auto
next
  case False
  define es where "es = jsSort (\<lambda>a b. pe_relevance a - pe_relevance b) st"
  have res: "st' = evictLoop cap prot es st"
    using False by (simp add: st'_def enforceCapacity_def cap_def prot_def es_def Let_def)
  have d: "distinct (map pe_id st)" unfolding st_def by (rule upserts_distinct [OF d0])
  have srt: "sorted_wrt (\<lambda>a b. pe_relevance a \<le> pe_relevance b) es"
    unfolding es_def by (rule sorted_jsSort)
  have ses: "set es = set st" by (simp add: es_def)
  have sub: "set st' \<subseteq> set st" unfolding res by (rule evictLoop_subset)
  have p1: "prot \<subseteq> pe_id ` set st'"
  proof
    fix i assume i: "i \<in> prot"
    then have "i \<in> pe_id ` set st"
      using protectedIdsAround_subset [of st self "max 2 (cfg_m cfg)"] by (auto simp: prot_def)
    then obtain e where e: "e \<in> set st" "pe_id e = i" by auto
    then have "e \<in> set st'" unfolding res using i by (auto intro: evictLoop_keeps_protected)
    then show "i \<in> pe_id ` set st'" using e by auto
  qed
  have p3: "\<forall>r \<in> set st - set st'. pe_id r \<notin> prot
             \<and> (\<forall>x \<in> set st'. pe_id x \<notin> prot \<longrightarrow> pe_relevance r \<le> pe_relevance x)"
  proof
    fix r assume r: "r \<in> set st - set st'"
    then have rin: "r \<in> set st" and rout: "r \<notin> set (evictLoop cap prot es st)"
      by (auto simp: res)
    from evictLoop_lowest_first [OF srt rin rout]
    obtain a where a: "a \<in> set es" "pe_id a = pe_id r" "pe_id r \<notin> prot"
      "\<forall>x \<in> set es. pe_id x \<notin> prot \<and> pe_id x \<in> pe_id ` set (evictLoop cap prot es st)
          \<longrightarrow> pe_relevance a \<le> pe_relevance x"
      by auto
    have "a = r" using a(1,2) rin d ses by (auto simp: distinct_map inj_on_def)
    then show "pe_id r \<notin> prot
             \<and> (\<forall>x \<in> set st'. pe_id x \<notin> prot \<longrightarrow> pe_relevance r \<le> pe_relevance x)"
      using a sub ses res by auto
  qed
  have p4: "length st' \<le> cap \<or> pe_id ` set st' \<subseteq> prot"
    using evictLoop_stops [of cap prot es st] sub ses res by auto
  have p5: "min (length st) cap \<le> length st'"
    unfolding res by (rule evictLoop_no_more_than_needed [OF d])
  have d': "distinct (map pe_id st')" unfolding res by (rule evictLoop_distinct [OF d])
  have fin: "finite prot"
    unfolding prot_def protectedIdsAround_def by simp
  have p6: "length st' \<le> max cap (card prot)"
  proof (cases "length st' \<le> cap")
    case True
    then show ?thesis by simp
  next
    case False
    then have "pe_id ` set st' \<subseteq> prot" using p4 by simp
    then have "card (pe_id ` set st') \<le> card prot" using fin by (rule card_mono [rotated])
    moreover have "card (pe_id ` set st') = length st'"
      using d' by (metis distinct_card length_map set_map)
    ultimately show ?thesis by simp
  qed
  have p7: "enforceCapacity cfg None st = st" by (simp add: enforceCapacity_def Let_def)
  from p1 sub p3 p4 p6 p5 p7 show ?thesis by blast
qed


lemma enforceCapacity_evicts_lowest:
  "map pe_id (enforceCapacity smallCfg (Some (coordByte 10)) (upserts rankedPeers [(''x6'', coordByte 35)]))
   = [''x0'', ''x1'', ''x2'', ''x4'', ''x5'']"
  by code_simp

theorem C6_enforceCapacity_witness:
  "distinct (map pe_id rankedPeers)
   \<and> protectedIdsAround (upserts rankedPeers [(''x6'', coordByte 35)]) (coordByte 10) (max 2 (cfg_m smallCfg))
       \<subseteq> pe_id ` set (enforceCapacity smallCfg (Some (coordByte 10)) (upserts rankedPeers [(''x6'', coordByte 35)]))
   \<and> length (enforceCapacity smallCfg (Some (coordByte 10)) (upserts rankedPeers [(''x6'', coordByte 35)])) = 5
   \<and> enforceCapacity smallCfg None (upserts rankedPeers [(''x6'', coordByte 35)])
       = upserts rankedPeers [(''x6'', coordByte 35)]"
proof -
  have h: "distinct (map pe_id rankedPeers)" by code_simp
  have n: "length (enforceCapacity smallCfg (Some (coordByte 10)) (upserts rankedPeers [(''x6'', coordByte 35)])) = 5"
    by code_simp
  show ?thesis
    using h n C6_enforceCapacity [where base = rankedPeers and cfg = smallCfg and self = "coordByte 10"
          and ops = "[(''x6'', coordByte 35)]", OF h]
    by blast
qed

subsection \<open>Route pipeline\<close>

text \<open>The selector returns one of its candidates.\<close>

lemma map_filter_mem:
  "s \<in> set (List.map_filter f xs) \<Longrightarrow> \<exists>x \<in> set xs. f x = Some s"
  by (induction xs) (auto split: option.splits)

lemma scoreCandidate_id:
  "scoreCandidate st c isConn lq conf bo radius i = Some s \<Longrightarrow> sc_id s = i"
  by (auto simp: scoreCandidate_def Let_def split: option.splits)

lemma scoreLegacy_id: "scoreLegacy st c isConn lq i = Some s \<Longrightarrow> sl_id s = i"
  by (auto simp: scoreLegacy_def Let_def split: option.splits)

lemma jsSort_head_mem: "jsSort cmp xs = y # ys \<Longrightarrow> y \<in> set xs"
proof -
  assume "jsSort cmp xs = y # ys"
  then have "y \<in> set (jsSort cmp xs)" by simp
  then show ?thesis by simp
qed

lemma chooseNextHopCost_mem:
  assumes "chooseNextHopCost st c cands isConn lq opts = Some i"
  shows "i \<in> set cands"
proof -
  define conf where "conf = (case confidence opts of None \<Rightarrow> 0.5 | Some c \<Rightarrow> c)"
  define bo where "bo = (case backoffPenalty opts of None \<Rightarrow> (\<lambda>_. 0::real) | Some f \<Rightarrow> f)"
  define radius where "radius = (case nearRadius opts of None \<Rightarrow> [] | Some r \<Rightarrow> r)"
  define scored where "scored = List.map_filter (scoreCandidate st c isConn lq conf bo radius) cands"
  have ids: "\<And>s. s \<in> set scored \<Longrightarrow> sc_id s \<in> set cands"
    unfolding scored_def using map_filter_mem scoreCandidate_id by fastforce
  from assms obtain s where "s \<in> set scored" "i = sc_id s"
    unfolding chooseNextHopCost_def Let_def conf_def [symmetric] bo_def [symmetric]
      radius_def [symmetric] scored_def [symmetric]
    by (auto split: if_splits list.splits dest!: jsSort_head_mem)
  then show ?thesis using ids by simp
qed

lemma bestByDist_mem:
  "foldl bestByDistStep acc xs = Some b \<Longrightarrow> b \<in> set xs \<or> acc = Some b"
proof (induction xs arbitrary: acc)
  case Nil
  then show ?case by simp
next
  case (Cons x xs)
  from Cons.IH [of "bestByDistStep acc x"] Cons.prems
  have "b \<in> set xs \<or> bestByDistStep acc x = Some b" by simp
  then show ?case by (auto simp: bestByDistStep_def split: option.splits if_splits)
qed

lemma bestConnected_mem:
  "foldl (bestConnectedStep lead tol) acc xs = Some b \<Longrightarrow> b \<in> set xs \<or> acc = Some b"
proof (induction xs arbitrary: acc)
  case Nil
  then show ?case by simp
next
  case (Cons x xs)
  from Cons.IH [of "bestConnectedStep lead tol acc x"] Cons.prems
  have "b \<in> set xs \<or> bestConnectedStep lead tol acc x = Some b" by simp
  then show ?case by (auto simp: bestConnectedStep_def split: option.splits if_splits)
qed

lemma chooseNextHopLegacy_mem:
  assumes "chooseNextHopLegacy st c cands isConn lq tol = Some i"
  shows "i \<in> set cands"
proof -
  define scored where "scored = List.map_filter (scoreLegacy st c isConn lq) cands"
  have ids: "\<And>s. s \<in> set scored \<Longrightarrow> sl_id s \<in> set cands"
    unfolding scored_def using map_filter_mem scoreLegacy_id by fastforce
  from assms obtain s where "s \<in> set scored" "i = sl_id s"
    unfolding chooseNextHopLegacy_def Let_def scored_def [symmetric]
    by (auto split: option.splits dest!: bestByDist_mem bestConnected_mem)
  then show ?thesis using ids by simp
qed

lemma chooseNextHop_mem:
  "chooseNextHop st c cands isConn lq oot = Some i \<Longrightarrow> i \<in> set cands"
  unfolding chooseNextHop_def Let_def
  by (auto split: if_splits dest: chooseNextHopCost_mem chooseNextHopLegacy_mem)

text \<open>Subtracting 1 from a positive integer no greater than \<open>2 ^ 53\<close> is exact.\<close>

lemma pow2i_eq: "pow2i k = 2 ^ nat k"
proof (induction k rule: pow2i.induct)
  case (1 k)
  show ?case
  proof (cases "k \<le> 0")
    case True
    then show ?thesis by (simp add: pow2i.simps)
  next
    case False
    then have ih: "pow2i (k div 2) = 2 ^ nat (k div 2)" using 1 by simp
    have "k = 2 * (k div 2) + k mod 2" by simp
    moreover have "0 \<le> k div 2" "0 \<le> k mod 2" using False by simp_all
    ultimately have k: "nat k = 2 * nat (k div 2) + nat (k mod 2)"
      by (metis nat_add_distrib nat_mult_distrib nat_numeral zero_le_numeral mult_nonneg_nonneg)
    have sq: "(2::rat) ^ nat (k div 2) * 2 ^ nat (k div 2) = 2 ^ (2 * nat (k div 2))"
      by (simp add: power_add [symmetric] mult_2)
    show ?thesis
    proof (cases "k mod 2 = 0")
      case True
      then show ?thesis using False ih k sq by (subst pow2i.simps) (simp add: Let_def)
    next
      case odd: False
      then have "k mod 2 = 1" by presburger
      then show ?thesis using False ih k sq odd by (subst pow2i.simps) (simp add: Let_def)
    qed
  qed
qed

lemma bitLen_le: "n < 2 ^ m \<Longrightarrow> bitLen n \<le> int m"
proof (induction m arbitrary: n)
  case 0
  then have "n \<le> 0" by simp
  then show ?case by (simp add: bitLen.simps)
next
  case (Suc m)
  show ?case
  proof (cases "n \<le> 0")
    case True
    then show ?thesis by (simp add: bitLen.simps)
  next
    case False
    have "n div 2 < 2 ^ m" using Suc.prems by simp
    from Suc.IH [OF this] False show ?thesis by (subst bitLen.simps) simp
  qed
qed

lemma roundHalfEven_int: "roundHalfEven (of_int m) = m"
  by (simp add: roundHalfEven_def Let_def)

lemma rd_int:
  assumes "0 < k" "k < 2 ^ 53"
  shows "rd (of_int k) = Fin (of_int k)"
proof -
  define e where "e = max (floorLog2 (of_int k)) (- 1022)"
  have q: "quotient_of (of_int k) = (k, 1)" by simp
  have "bitLen 1 = 1" by (simp add: bitLen.simps)
  then have "floorLog2 (of_int k) \<le> bitLen k - 1"
    by (auto simp: floorLog2_def Let_def q)
  moreover have "bitLen k \<le> 53" using bitLen_le [of k 53] assms by simp
  ultimately have e: "e \<le> 52" "- 1022 \<le> e" by (auto simp: e_def)
  define j where "j = nat (52 - e)"
  have ulp: "pow2 (e - 52) = 1 / 2 ^ j"
  proof (cases "e = 52")
    case True
    then show ?thesis by (simp add: pow2_def pow2i_eq j_def)
  next
    case False
    then have "e - 52 < 0" using e by simp
    then show ?thesis by (simp add: pow2_def pow2i_eq j_def)
  qed
  have quot: "(of_int k :: rat) / (1 / 2 ^ j) = of_int (k * 2 ^ j)" by simp
  have ab: "\<bar>of_int k :: rat\<bar> = of_int k" using assms(1) by simp
  have v: "of_int (roundHalfEven (of_int k / pow2 (e - 52))) * pow2 (e - 52) = (of_int k :: rat)"
    unfolding ulp quot roundHalfEven_int by simp
  have lt: "(of_int k :: rat) < 9007199254740992" using assms(2) by (simp add: of_int_less_iff [of k 9007199254740992, where 'a = rat, simplified])
  then have nov: "\<not> dblOverflow \<le> (of_int k :: rat)" by (simp add: dblOverflow_def)
  show ?thesis
    using assms(1) nov unfolding rd_def Let_def ab e_def [symmetric] v by simp
qed

lemma dsub_one:
  assumes "0 < n" "n \<le> 2 ^ 53"
  shows "dsub (Fin (of_int n)) (Fin 1) = Fin (of_int (n - 1))"
proof (cases "n = 1")
  case True
  then show ?thesis by (simp add: dsub_def dneg_def dadd_def isInf_def valOf_def)
next
  case False
  then have "0 < n - 1" "n - 1 < 2 ^ 53" using assms by auto
  from rd_int [OF this] False show ?thesis
    by (simp add: dsub_def dneg_def dadd_def isInf_def valOf_def)
qed

lemma dlt_zero_int: "dlt (Fin 0) (Fin (of_int n)) \<longleftrightarrow> 0 < n"
  by (simp add: dlt_def rank_def valOf_def)


lemma forwardHop_sends:
  "forwardHop env s1 msg nx fb = (out, s', sends) \<Longrightarrow>
   sends = [(nx, msg\<lparr>msg_ttl := dsub (msg_ttl msg) (Fin 1),
                      msg_breadcrumbs := Some (listOf (msg_breadcrumbs msg) @ [env_selfId env])\<rparr>)]
   \<and> ss_dedupCache s' = ss_dedupCache s1"
  unfolding forwardHop_def Let_def
  by (auto split: SendOutcome.splits Response.splits)

lemma forwardCandidates_excluded:
  "i \<in> set (forwardCandidates env cfg st msg c) \<Longrightarrow>
   i \<notin> set (listOf (msg_breadcrumbs msg)) \<and> i \<noteq> env_selfId env"
  by (simp add: forwardCandidates_def Let_def)

lemma routeForward_sends:
  assumes "routeForward env cfg s msg c n conf fb = (out, s', sends)"
  shows "ss_dedupCache s' = ss_dedupCache s
     \<and> (sends = [] \<or> (\<exists>nx. nx \<notin> set (listOf (msg_breadcrumbs msg)) \<and> nx \<noteq> env_selfId env
           \<and> sends = [(nx, msg\<lparr>msg_ttl := dsub (msg_ttl msg) (Fin 1),
                      msg_breadcrumbs := Some (listOf (msg_breadcrumbs msg) @ [env_selfId env])\<rparr>)]))"
proof -
  define nxt where "nxt = chooseNextHop (ss_store s) c
       (forwardCandidates env cfg (ss_store s) msg c) (env_isConnected env) (linkQuality (ss_store s))
       (Options (buildNextHopOptions cfg (env_now env) (ss_backoffMap s) n conf))"
  define s1 where "s1 = s\<lparr>ss_backoffMap :=
       purgeBackoff (env_now env)
         (filter (\<lambda>i. getById (ss_store s) i \<noteq> None) (forwardCandidates env cfg (ss_store s) msg c))
         (ss_backoffMap s)\<rparr>"
  have dc: "ss_dedupCache s1 = ss_dedupCache s" by (simp add: s1_def)
  have eq: "routeForward env cfg s msg c n conf fb =
      (case nxt of None \<Rightarrow> (fb, s1, [])
       | Some nx \<Rightarrow> if nx = [] then (fb, s1, []) else forwardHop env s1 msg nx fb)"
    unfolding routeForward_def Let_def nxt_def s1_def by (rule refl)
  show ?thesis
  proof (cases nxt)
    case None
    then show ?thesis using assms eq dc by auto
  next
    case (Some nx)
    then have "nx \<in> set (forwardCandidates env cfg (ss_store s) msg c)"
      unfolding nxt_def by (rule chooseNextHop_mem)
    then have ex: "nx \<notin> set (listOf (msg_breadcrumbs msg)) \<and> nx \<noteq> env_selfId env"
      by (rule forwardCandidates_excluded)
    show ?thesis
    proof (cases "nx = []")
      case True
      then show ?thesis using assms eq dc Some by auto
    next
      case False
      then have "forwardHop env s1 msg nx fb = (out, s', sends)" using assms eq Some by simp
      from forwardHop_sends [OF this] ex dc show ?thesis by auto
    qed
  qed
qed

lemma routeAct_sends:
  assumes "routeAct env cfg s msg = (out, s', sends)"
  shows "ss_dedupCache s' = ss_dedupCache s
     \<and> (sends = [] \<or> (\<exists>nx. nx \<notin> set (listOf (msg_breadcrumbs msg)) \<and> nx \<noteq> env_selfId env
           \<and> env_hashKey env (msg_key msg) \<noteq> None \<and> dlt (Fin 0) (msg_ttl msg)
           \<and> sends = [(nx, msg\<lparr>msg_ttl := dsub (msg_ttl msg) (Fin 1),
                      msg_breadcrumbs := Some (listOf (msg_breadcrumbs msg) @ [env_selfId env])\<rparr>)]))"
proof (cases "env_hashKey env (msg_key msg)")
  case None
  then show ?thesis using assms by (simp add: routeAct_def)
next
  case (Some c)
  then show ?thesis
    using assms unfolding routeAct_def Let_def
    by (auto split: prod.splits if_splits dest: routeForward_sends)
qed

lemma handleMaybeAct_loop:
  "env_selfId env \<in> set (listOf (msg_breadcrumbs msg)) \<Longrightarrow>
   handleMaybeAct env cfg s msg = (replyNearAnchorOnly env cfg (ss_store s) msg, s, [], LoopDetected)"
  by (simp add: handleMaybeAct_def Let_def)

lemma replyNearAnchorOnly_cases:
  "case env_hashKey env (msg_key msg) of
     None \<Rightarrow> replyNearAnchorOnly env cfg st msg = HandlerThrew
   | Some c \<Rightarrow> (\<exists>a. replyNearAnchorOnly env cfg st msg = Answered (NearAnchor a))"
  by (simp add: replyNearAnchorOnly_def nearAnchorOnly_def Let_def split: option.splits)

lemma handleMaybeAct_sends:
  assumes "handleMaybeAct env cfg s msg = (r, s', sends, p)"
  shows "sends = [] \<or> (\<exists>s0 out s1. routeAct env cfg s0 msg = (out, s1, sends))"
  using assms unfolding handleMaybeAct_def Let_def
  by (auto split: prod.splits option.splits if_splits RouteOutcome.splits)

text \<open>
  C1 (amended). A message whose breadcrumbs contain the handler's own id is never
  forwarded; it is answered with a near anchor when its key decodes, and the handler throws
  when it does not. Every message that \<^verbatim>\<open>routeAct\<close> sends, called from the handler or
  directly, is the incoming message with the own id appended to the breadcrumbs and with
  the double \<^verbatim>\<open>ttl - 1\<close> as its ttl, which is the incoming ttl minus 1 whenever the
  incoming ttl is an integer no greater than \<open>2 ^ 53\<close>; the incoming key decodes and the
  incoming ttl is positive; and the target is neither in the incoming breadcrumbs nor the
  own id.
\<close>

theorem C1_route_invariants:
  fixes env :: Env and cfg :: FretConfig and s :: ServiceState and msg :: RouteAndMaybeActV1
  defines "self \<equiv> env_selfId env"
  defines "bc \<equiv> listOf (msg_breadcrumbs msg)"
  defines "handled \<equiv> handleMaybeAct env cfg s msg"
  defines "routed \<equiv> routeAct env cfg s msg"
  shows "(self \<in> set bc \<longrightarrow>
            fst (snd (snd handled)) = []
          \<and> (case env_hashKey env (msg_key msg) of
               None \<Rightarrow> fst handled = HandlerThrew
             | Some c \<Rightarrow> (\<exists>a. fst handled = Answered (NearAnchor a))))
       \<and> (\<forall>(target, fwd) \<in> set (fst (snd (snd handled))) \<union> set (snd (snd routed)).
             fwd = msg\<lparr>msg_ttl := dsub (msg_ttl msg) (Fin 1), msg_breadcrumbs := Some (bc @ [self])\<rparr>
           \<and> msg_breadcrumbs fwd = Some (bc @ [self])
           \<and> msg_ttl fwd = dsub (msg_ttl msg) (Fin 1)
           \<and> (\<forall>n. msg_ttl msg = Fin (of_int n) \<and> n \<le> 2 ^ 53 \<longrightarrow> msg_ttl fwd = Fin (of_int (n - 1)))
           \<and> env_hashKey env (msg_key msg) \<noteq> None
           \<and> dlt (Fin 0) (msg_ttl msg)
           \<and> target \<notin> set bc \<and> target \<noteq> self)"
proof -
  have loop: "self \<in> set bc \<longrightarrow>
            fst (snd (snd handled)) = []
          \<and> (case env_hashKey env (msg_key msg) of
               None \<Rightarrow> fst handled = HandlerThrew
             | Some c \<Rightarrow> (\<exists>a. fst handled = Answered (NearAnchor a)))"
    unfolding self_def bc_def handled_def
    using replyNearAnchorOnly_cases [where env = env and msg = msg and cfg = cfg and st = "ss_store s"]
    by (auto simp: handleMaybeAct_loop split: option.splits)
  have r: "\<And>s0 out s1 sends target fwd.
      routeAct env cfg s0 msg = (out, s1, sends) \<Longrightarrow> (target, fwd) \<in> set sends \<Longrightarrow>
      fwd = msg\<lparr>msg_ttl := dsub (msg_ttl msg) (Fin 1), msg_breadcrumbs := Some (bc @ [self])\<rparr>
      \<and> env_hashKey env (msg_key msg) \<noteq> None \<and> dlt (Fin 0) (msg_ttl msg)
      \<and> target \<notin> set bc \<and> target \<noteq> self"
    unfolding self_def bc_def using routeAct_sends by fastforce
  have ttl: "\<And>n. dlt (Fin 0) (msg_ttl msg) \<Longrightarrow> msg_ttl msg = Fin (of_int n) \<and> n \<le> 2 ^ 53 \<Longrightarrow>
      dsub (msg_ttl msg) (Fin 1) = Fin (of_int (n - 1))"
    using dsub_one by (auto simp: dlt_zero_int)
  have all: "\<forall>x \<in> set (fst (snd (snd handled))) \<union> set (snd (snd routed)).
      case x of (target, fwd) \<Rightarrow>
             fwd = msg\<lparr>msg_ttl := dsub (msg_ttl msg) (Fin 1), msg_breadcrumbs := Some (bc @ [self])\<rparr>
           \<and> msg_breadcrumbs fwd = Some (bc @ [self])
           \<and> msg_ttl fwd = dsub (msg_ttl msg) (Fin 1)
           \<and> (\<forall>n. msg_ttl msg = Fin (of_int n) \<and> n \<le> 2 ^ 53 \<longrightarrow> msg_ttl fwd = Fin (of_int (n - 1)))
           \<and> env_hashKey env (msg_key msg) \<noteq> None
           \<and> dlt (Fin 0) (msg_ttl msg)
           \<and> target \<notin> set bc \<and> target \<noteq> self"
  proof (rule ballI)
    fix x
    assume a0: "x \<in> set (fst (snd (snd handled))) \<union> set (snd (snd routed))"
    obtain target fwd where x: "x = (target, fwd)" by (cases x) auto
    have a: "(target, fwd) \<in> set (fst (snd (snd handled))) \<union> set (snd (snd routed))"
      using a0 x by simp
    obtain r1 s1 sends1 p1 where h: "handled = (r1, s1, sends1, p1)" by (cases handled) auto
    obtain out2 s2 sends2 where q: "routed = (out2, s2, sends2)" by (cases routed) auto
    from a h q consider "(target, fwd) \<in> set sends1" | "(target, fwd) \<in> set sends2" by auto
    then have f: "fwd = msg\<lparr>msg_ttl := dsub (msg_ttl msg) (Fin 1), msg_breadcrumbs := Some (bc @ [self])\<rparr>
      \<and> env_hashKey env (msg_key msg) \<noteq> None \<and> dlt (Fin 0) (msg_ttl msg)
      \<and> target \<notin> set bc \<and> target \<noteq> self"
    proof cases
      case 1
      then have "sends1 \<noteq> []" by auto
      with handleMaybeAct_sends [OF h [unfolded handled_def]]
      obtain s0 out s1' where "routeAct env cfg s0 msg = (out, s1', sends1)" by auto
      from r [OF this 1] show ?thesis .
    next
      case 2
      from r [OF q [unfolded routed_def] 2] show ?thesis .
    qed
    then have t: "msg_ttl fwd = dsub (msg_ttl msg) (Fin 1)" by simp
    have "\<forall>n. msg_ttl msg = Fin (of_int n) \<and> n \<le> 2 ^ 53 \<longrightarrow> msg_ttl fwd = Fin (of_int (n - 1))"
      unfolding t using ttl f by blast
    with f t show "case x of (target, fwd) \<Rightarrow>
             fwd = msg\<lparr>msg_ttl := dsub (msg_ttl msg) (Fin 1), msg_breadcrumbs := Some (bc @ [self])\<rparr>
           \<and> msg_breadcrumbs fwd = Some (bc @ [self])
           \<and> msg_ttl fwd = dsub (msg_ttl msg) (Fin 1)
           \<and> (\<forall>n. msg_ttl msg = Fin (of_int n) \<and> n \<le> 2 ^ 53 \<longrightarrow> msg_ttl fwd = Fin (of_int (n - 1)))
           \<and> env_hashKey env (msg_key msg) \<noteq> None
           \<and> dlt (Fin 0) (msg_ttl msg)
           \<and> target \<notin> set bc \<and> target \<noteq> self"
      unfolding x by simp
  qed
  from loop all show ?thesis by (rule conjI)
qed

theorem C1_route_invariants_witness:
  "fst (snd (snd (handleMaybeAct demoEnv smallCfg demoState (demoMsg 3 [''x0'']))))
     = [(''x1'', demoMsg 2 [''x0'', ''x3''])]
   \<and> msg_ttl (demoMsg 3 [''x0'']) = Fin 3
   \<and> msg_ttl (demoMsg 2 [''x0'', ''x3'']) = Fin 2
   \<and> ''x1'' \<notin> set [''x0'']
   \<and> fst (snd (snd (handleMaybeAct demoEnv smallCfg demoState (demoMsg 3 [''x0'', ''x3''])))) = []
   \<and> fst (handleMaybeAct demoEnv smallCfg demoState (demoMsg 3 [''x0'', ''x3''])) \<noteq> HandlerThrew"
proof -
  have e: "fst (snd (snd (handleMaybeAct demoEnv smallCfg demoState (demoMsg 3 [''x0'']))))
     = [(''x1'', demoMsg 2 [''x0'', ''x3''])]"
    by code_simp
  have t3: "msg_ttl (demoMsg 3 [''x0'']) = Fin (of_int 3)" by code_simp
  have l: "env_selfId demoEnv \<in> set (listOf (msg_breadcrumbs (demoMsg 3 [''x0'', ''x3''])))"
    by code_simp
  have k: "env_hashKey demoEnv (msg_key (demoMsg 3 [''x0'', ''x3''])) = Some (coordByte 5)"
    by (simp add: demoEnv_def demoMsg_def)
  note loop = C1_route_invariants [where env = demoEnv and msg = "demoMsg 3 [''x0'', ''x3'']"
      and cfg = smallCfg and s = demoState, THEN conjunct1, THEN mp, OF l, unfolded k option.case]
  have n: "fst (snd (snd (handleMaybeAct demoEnv smallCfg demoState (demoMsg 3 [''x0'', ''x3''])))) = []"
    using loop by (rule conjunct1)
  have a: "fst (handleMaybeAct demoEnv smallCfg demoState (demoMsg 3 [''x0'', ''x3''])) \<noteq> HandlerThrew"
    using loop [THEN conjunct2] by auto
  have m: "(''x1'', demoMsg 2 [''x0'', ''x3''])
      \<in> set (fst (snd (snd (handleMaybeAct demoEnv smallCfg demoState (demoMsg 3 [''x0''])))))
        \<union> set (snd (snd (routeAct demoEnv smallCfg demoState (demoMsg 3 [''x0'']))))"
    unfolding e by simp
  note fwd = bspec [OF C1_route_invariants [where env = demoEnv and msg = "demoMsg 3 [''x0'']"
      and cfg = smallCfg and s = demoState, THEN conjunct2] m, unfolded prod.case]
  note rest = fwd [THEN conjunct2, THEN conjunct2, THEN conjunct2]
  have "msg_ttl (demoMsg 3 [''x0'']) = Fin (of_int 3) \<and> (3::int) \<le> 2 ^ 53
          \<longrightarrow> msg_ttl (demoMsg 2 [''x0'', ''x3'']) = Fin (of_int (3 - 1))"
    using rest [THEN conjunct1] by (rule spec)
  then have t2: "msg_ttl (demoMsg 2 [''x0'', ''x3'']) = Fin 2" using t3 by simp
  have "''x1'' \<notin> set (listOf (msg_breadcrumbs (demoMsg 3 [''x0''])))"
    using rest [THEN conjunct2, THEN conjunct2, THEN conjunct2] by (rule conjunct1)
  then have x': "''x1'' \<notin> set [''x0'']" by (simp add: demoMsg_def listOf_def)
  from e t3 t2 x' n a show ?thesis by simp
qed

text \<open>
  C1 (as stated, refuted). A message whose breadcrumbs contain the own id \<open>x3\<close> and whose
  key is the text \<open>key\<close>, which is not base64url, is not answered: the handler throws. A
  message with the ttl \<open>2 ^ 54\<close> is forwarded with the same ttl, the double nearest to
  \<open>2 ^ 54 - 1\<close>.
\<close>

theorem C1_undecodable_key_and_large_ttl_counterexample:
  "env_selfId demoEnv \<in> set (listOf (msg_breadcrumbs undecodableMsg))
   \<and> fst (handleMaybeAct demoEnv smallCfg demoState undecodableMsg) = HandlerThrew
   \<and> msg_ttl largeTtlMsg = Fin 18014398509481984
   \<and> map fst (snd (snd (routeAct demoEnv smallCfg demoState largeTtlMsg))) = [''x1'']
   \<and> map (msg_ttl \<circ> snd) (snd (snd (routeAct demoEnv smallCfg demoState largeTtlMsg)))
       = [Fin 18014398509481984]
   \<and> map (msg_ttl \<circ> snd) (fst (snd (snd (handleMaybeAct demoEnv smallCfg demoState largeTtlMsg))))
       = [Fin 18014398509481984]"
  by code_simp

subsection \<open>Correlation-id deduplication\<close>





lemma map_of_mapDelete: "map_of (mapDelete k es) k' = (if k' = k then None else map_of es k')"
  by (induction es) (auto simp: mapDelete_def)

lemma dedupGet_subset: "set (dc_entries (snd (dedupGet c k now))) \<subseteq> set (dc_entries c)"
  by (auto simp: dedupGet_def mapDelete_def split: option.splits prod.splits)

lemma dedupGet_miss:
  "fst (dedupGet c k now) = None \<Longrightarrow> fst (dedupGet (snd (dedupGet c k now)) k t) = None"
  by (auto simp: dedupGet_def map_of_mapDelete split: option.splits prod.splits if_splits)

lemma dedupGet_later:
  "now \<le> t \<Longrightarrow> fst (dedupGet (snd (dedupGet c k now)) k' t) = fst (dedupGet c k' t)"
  by (auto simp: dedupGet_def map_of_mapDelete split: option.splits prod.splits if_splits)

lemma routeAct_cache: "ss_dedupCache (fst (snd (routeAct env cfg s msg))) = ss_dedupCache s"
proof -
  obtain out s' sends where r: "routeAct env cfg s msg = (out, s', sends)"
    by (cases "routeAct env cfg s msg") auto
  from routeAct_sends [OF r] r show ?thesis by simp
qed





lemma handleMaybeAct_cache_cases:
  assumes h: "handleMaybeAct env cfg s msg = (r, s', sends, p)" and p: "p \<noteq> Routed"
  shows "(p = LoopDetected \<or> msg_correlation_id msg = [] \<longrightarrow> ss_dedupCache s' = ss_dedupCache s)
       \<and> (p \<noteq> LoopDetected \<and> msg_correlation_id msg \<noteq> [] \<longrightarrow>
            ss_dedupCache s' = snd (dedupGet (ss_dedupCache s) (msg_correlation_id msg) (env_now env))
          \<and> (p \<noteq> CacheHit \<longrightarrow> fst (dedupGet (ss_dedupCache s) (msg_correlation_id msg) (env_now env)) = None))"
proof -
  define dc1 where "dc1 = snd (dedupGet (ss_dedupCache s) (msg_correlation_id msg) (env_now env))"
  define s2 where "s2 = s\<lparr>ss_dedupCache := dc1, ss_inflightAct := ss_inflightAct s + 1\<rparr>"
  define s2' where "s2' = s\<lparr>ss_dedupCache := ss_dedupCache s, ss_inflightAct := ss_inflightAct s + 1\<rparr>"
  have ra: "ss_dedupCache (fst (snd (routeAct env cfg s2 msg))) = dc1"
    unfolding routeAct_cache by (simp add: s2_def)
  have ra': "ss_dedupCache (fst (snd (routeAct env cfg s2' msg))) = ss_dedupCache s"
    unfolding routeAct_cache by (simp add: s2'_def)
  show ?thesis
    using h p ra ra' unfolding handleMaybeAct_def Let_def s2_def s2'_def dc1_def bumpRejected_def
    by (auto split: if_splits option.splits prod.splits RouteOutcome.splits)
qed

lemma handleMaybeAct_not_CacheHit:
  "msg_correlation_id msg = [] \<or>
   fst (dedupGet (ss_dedupCache s) (msg_correlation_id msg) (env_now env)) = None \<Longrightarrow>
   snd (snd (snd (handleMaybeAct env cfg s msg))) \<noteq> CacheHit"
  unfolding handleMaybeAct_def Let_def
  by (auto split: if_splits option.splits prod.splits RouteOutcome.splits simp: dedupGet_def)

text \<open>
  C10. An invocation that is not answered by a result of \<^verbatim>\<open>routeAct\<close> writes nothing
  into the dedup cache: its entries are among the old ones, and every lookup from then on
  gives what it gave before (the lookup of the handler may drop an expired entry). After
  the breadcrumb rejection the whole state is unchanged. After any other rejection, a busy
  response or a failed route, a later message with the same correlation id is not answered
  from the cache.
\<close>

theorem C10_rejections_not_cached:
  assumes h: "handleMaybeAct env cfg s msg = (r, s', sends, p)"
  shows "(p \<noteq> Routed \<longrightarrow>
            set (dc_entries (ss_dedupCache s')) \<subseteq> set (dc_entries (ss_dedupCache s))
          \<and> (\<forall>k t. env_now env \<le> t \<longrightarrow>
                 fst (dedupGet (ss_dedupCache s') k t) = fst (dedupGet (ss_dedupCache s) k t)))
       \<and> (p = LoopDetected \<longrightarrow> s' = s)
       \<and> (p \<in> rejectionPaths \<and> p \<noteq> LoopDetected \<longrightarrow>
            (\<forall>env2 cfg2 s2 m2.
               ss_dedupCache s2 = ss_dedupCache s' \<and> msg_correlation_id m2 = msg_correlation_id msg
               \<longrightarrow> snd (snd (snd (handleMaybeAct env2 cfg2 s2 m2))) \<noteq> CacheHit))"
proof -
  let ?cid = "msg_correlation_id msg"
  let ?dc1 = "snd (dedupGet (ss_dedupCache s) ?cid (env_now env))"
  have a: "p \<noteq> Routed \<longrightarrow>
            set (dc_entries (ss_dedupCache s')) \<subseteq> set (dc_entries (ss_dedupCache s))
          \<and> (\<forall>k t. env_now env \<le> t \<longrightarrow>
                 fst (dedupGet (ss_dedupCache s') k t) = fst (dedupGet (ss_dedupCache s) k t))"
  proof
    assume p: "p \<noteq> Routed"
    from handleMaybeAct_cache_cases [OF h p]
    have "ss_dedupCache s' = ss_dedupCache s \<or> ss_dedupCache s' = ?dc1" by blast
    then show "set (dc_entries (ss_dedupCache s')) \<subseteq> set (dc_entries (ss_dedupCache s))
          \<and> (\<forall>k t. env_now env \<le> t \<longrightarrow>
                 fst (dedupGet (ss_dedupCache s') k t) = fst (dedupGet (ss_dedupCache s) k t))"
      using dedupGet_subset [of "ss_dedupCache s" ?cid "env_now env"]
      by (auto simp: dedupGet_later)
  qed
  have b: "p = LoopDetected \<longrightarrow> s' = s"
    using h unfolding handleMaybeAct_def Let_def bumpRejected_def
    by (auto split: if_splits option.splits prod.splits RouteOutcome.splits)
  have c: "p \<in> rejectionPaths \<and> p \<noteq> LoopDetected \<longrightarrow>
            (\<forall>env2 cfg2 s2 m2.
               ss_dedupCache s2 = ss_dedupCache s' \<and> msg_correlation_id m2 = msg_correlation_id msg
               \<longrightarrow> snd (snd (snd (handleMaybeAct env2 cfg2 s2 m2))) \<noteq> CacheHit)"
  proof (intro impI allI)
    fix env2 :: Env and cfg2 :: FretConfig and s2 :: ServiceState and m2 :: RouteAndMaybeActV1
    assume p: "p \<in> rejectionPaths \<and> p \<noteq> LoopDetected"
      and q: "ss_dedupCache s2 = ss_dedupCache s' \<and> msg_correlation_id m2 = msg_correlation_id msg"
    from p have pr: "p \<noteq> Routed" and pc: "p \<noteq> CacheHit" by (auto simp: rejectionPaths_def)
    have "?cid = [] \<or> fst (dedupGet (ss_dedupCache s') ?cid (env_now env2)) = None"
    proof (cases "?cid = []")
      case True
      then show ?thesis by simp
    next
      case False
      from handleMaybeAct_cache_cases [OF h pr] p pc False
      have "ss_dedupCache s' = ?dc1" "fst (dedupGet (ss_dedupCache s) ?cid (env_now env)) = None"
        by blast+
      then show ?thesis by (simp add: dedupGet_miss)
    qed
    then show "snd (snd (snd (handleMaybeAct env2 cfg2 s2 m2))) \<noteq> CacheHit"
      using q handleMaybeAct_not_CacheHit [of m2 s2 env2 cfg2] by auto
  qed
  from a b c show ?thesis by blast
qed

theorem C10_rejections_not_cached_witness:
  "snd (snd (snd (handleMaybeAct inEnv smallCfg demoState (demoMsg 0 [])))) = TtlExpired
   \<and> TtlExpired \<in> rejectionPaths
   \<and> dc_entries (ss_dedupCache (fst (snd (handleMaybeAct inEnv smallCfg demoState (demoMsg 0 []))))) = []
   \<and> snd (snd (snd (handleMaybeAct inEnv smallCfg
            (fst (snd (handleMaybeAct inEnv smallCfg demoState (demoMsg 0 [])))) (demoMsg 3 []))))
       \<noteq> CacheHit"
proof -
  define H where "H = handleMaybeAct inEnv smallCfg demoState (demoMsg 0 [])"
  have p: "snd (snd (snd H)) = TtlExpired" unfolding H_def by code_simp
  then have h: "handleMaybeAct inEnv smallCfg demoState (demoMsg 0 [])
      = (fst H, fst (snd H), fst (snd (snd H)), TtlExpired)"
    unfolding H_def [symmetric] by (cases H) auto
  have r: "TtlExpired \<in> rejectionPaths" by (simp add: rejectionPaths_def)
  have e: "dc_entries (ss_dedupCache demoState) = []" by (simp add: demoState_def newDedupCache_def)
  note t = C10_rejections_not_cached [OF h]
  have "set (dc_entries (ss_dedupCache (fst (snd H)))) \<subseteq> set (dc_entries (ss_dedupCache demoState))"
    using t by blast
  then have e': "dc_entries (ss_dedupCache (fst (snd H))) = []" using e by simp
  have "snd (snd (snd (handleMaybeAct inEnv smallCfg (fst (snd H)) (demoMsg 3 [])))) \<noteq> CacheHit"
    using t r by (auto simp: demoMsg_def)
  then show ?thesis using p r e' unfolding H_def by simp
qed

end
